theory Spec2Isabelle
  imports Main "HOL-Library.Product_Lexorder" "HOL-Library.Sublist" "HOL-Library.Char_ord"
    "HOL-Library.List_Lexorder" "HOL-Library.Option_ord"
begin

section \<open>Values of the corpus and the Python operations applied to them\<close>

text \<open>
  \<^verbatim>\<open>build_db.py\<close> reads a file of lines, parses each with \<^verbatim>\<open>json.loads\<close> and works on
  the parsed value with dynamically typed Python operations. A parsed value is a \<open>json\<close>;
  a JSON object is the association list of its members, looked up as Python's \<^verbatim>\<open>dict.get\<close>
  does. Python's \<^verbatim>\<open>None\<close> and JSON's \<^verbatim>\<open>null\<close> are the same value \<open>JNull\<close>. Numbers with a
  fraction or an exponent (Python floats) are not part of the model. A \<open>string\<close> is the
  sequence of characters of a Python \<^verbatim>\<open>str\<close>; nothing in the program looks inside a
  character.
\<close>

datatype json = JNull | JBool bool | JInt int | JStr string
  | JList "json list" | JDict "(string \<times> json) list"

text \<open>
  The exceptions that can leave a function of the program. \<open>BindingError\<close> is what the
  \<^verbatim>\<open>sqlite3\<close> module raises for a parameter of an unsupported type (its class depends on
  the Python version). \<open>Unmodelled\<close> is no Python exception: it marks a store operation
  this development does not follow (see \<open>integer_affinity\<close> and \<open>row_of_params\<close>).
\<close>

datatype error = JSONDecodeError | UnicodeDecodeError | TypeError | AttributeError
  | BindingError | OverflowError | IntegrityError | Unmodelled

text \<open>
  Two library functions are parameters: \<^verbatim>\<open>repr\<close> of a \<^verbatim>\<open>str\<close> (quoting and escaping) and
  \<^verbatim>\<open>json.dumps\<close>. Both are total on parsed values and their text is never inspected by
  the program.
\<close>

record pylib =
  repr_str :: "string \<Rightarrow> string"
  json_dumps :: "json \<Rightarrow> string"

text \<open>Truth value of a Python object, as \<^verbatim>\<open>if x\<close>, \<^verbatim>\<open>not x\<close> and \<^verbatim>\<open>x or y\<close> use it.\<close>

fun truthy :: "json \<Rightarrow> bool" where
  "truthy JNull = False"
| "truthy (JBool b) = b"
| "truthy (JInt i) = (i \<noteq> 0)"
| "truthy (JStr s) = (s \<noteq> [])"
| "truthy (JList xs) = (xs \<noteq> [])"
| "truthy (JDict kvs) = (kvs \<noteq> [])"

definition py_or :: "json \<Rightarrow> json \<Rightarrow> json" where
  "py_or a b = (if truthy a then a else b)"

text \<open>\<^verbatim>\<open>d.get(k)\<close>: the member's value, \<^verbatim>\<open>None\<close> when there is no such member.\<close>

definition dict_get :: "(string \<times> json) list \<Rightarrow> string \<Rightarrow> json" where
  "dict_get d k = (case map_of d k of None \<Rightarrow> JNull | Some v \<Rightarrow> v)"

text \<open>\<^verbatim>\<open>str\<close> of an integer: decimal digits, with a minus sign when negative.\<close>

fun nat_digits :: "nat \<Rightarrow> string" where
  "nat_digits n = (if n < 10 then [''0123456789'' ! n]
                   else nat_digits (n div 10) @ [''0123456789'' ! (n mod 10)])"

declare nat_digits.simps [simp del]

definition int_str :: "int \<Rightarrow> string" where
  "int_str i = (if i < 0 then CHR ''-'' # nat_digits (nat (- i)) else nat_digits (nat i))"

fun join :: "string \<Rightarrow> string list \<Rightarrow> string" where
  "join sep [] = []"
| "join sep [x] = x"
| "join sep (x # y # ys) = x @ sep @ join sep (y # ys)"

text \<open>
  \<^verbatim>\<open>repr\<close> of a parsed value (\<open>rs\<close> is \<^verbatim>\<open>repr\<close> on strings) and \<^verbatim>\<open>str\<close>, which differs from
  it on strings only. An f-string field \<^verbatim>\<open>{x}\<close> formats \<^verbatim>\<open>x\<close> with \<^verbatim>\<open>str\<close>.
\<close>

primrec py_repr :: "(string \<Rightarrow> string) \<Rightarrow> json \<Rightarrow> string" where
  "py_repr rs JNull = ''None''"
| "py_repr rs (JBool b) = (if b then ''True'' else ''False'')"
| "py_repr rs (JInt i) = int_str i"
| "py_repr rs (JStr s) = rs s"
| "py_repr rs (JList xs) = ''['' @ join '', '' (map (py_repr rs) xs) @ '']''"
| "py_repr rs (JDict kvs) =
     ''{'' @ join '', '' (map (\<lambda>kv. rs (fst kv) @ '': '' @ snd kv)
                              (map (map_prod id (py_repr rs)) kvs)) @ ''}''"

definition py_str :: "pylib \<Rightarrow> json \<Rightarrow> string" where
  "py_str lib v = (case v of JStr s \<Rightarrow> s | _ \<Rightarrow> py_repr (repr_str lib) v)"

text \<open>
  \<^verbatim>\<open>for item in v\<close>: a list gives its elements, a string its characters, a dict its keys;
  anything else is not iterable.
\<close>

fun py_iter :: "json \<Rightarrow> error + json list" where
  "py_iter (JList xs) = Inr xs"
| "py_iter (JStr s) = Inr (map (\<lambda>c. JStr [c]) s)"
| "py_iter (JDict kvs) = Inr (map (\<lambda>kv. JStr (fst kv)) kvs)"
| "py_iter v = Inl TypeError"

text \<open>
  \<^verbatim>\<open>k in v\<close> for a string \<^verbatim>\<open>k\<close>: a key of a dict, an element of a list, a substring of a
  string; \<^verbatim>\<open>None\<close>, booleans and integers are no containers.
\<close>

fun py_in :: "string \<Rightarrow> json \<Rightarrow> error + bool" where
  "py_in k (JDict kvs) = Inr (k \<in> fst ` set kvs)"
| "py_in k (JList xs) = Inr (JStr k \<in> set xs)"
| "py_in k (JStr s) = Inr (sublist k s)"
| "py_in k v = Inl TypeError"

text \<open>A loop whose body can raise: the first exception ends it.\<close>

fun for_each :: "('a \<Rightarrow> 's \<Rightarrow> error + 's) \<Rightarrow> 'a list \<Rightarrow> 's \<Rightarrow> error + 's" where
  "for_each body [] s = Inr s"
| "for_each body (x # xs) s =
     (case body x s of Inl e \<Rightarrow> Inl e | Inr s' \<Rightarrow> for_each body xs s')"

section \<open>Node identity and normalisation\<close>

text \<open>\<^verbatim>\<open>make_node_id\<close>, lines 70 to 82.\<close>

definition make_node_id :: "pylib \<Rightarrow> (string \<times> json) list \<Rightarrow> string" where
  "make_node_id lib entry =
     (let lang_code = py_or (dict_get entry ''lang_code'') (JStr '''');
          word = py_or (dict_get entry ''word'') (JStr '''');
          pos = py_or (dict_get entry ''pos'') (JStr '''');
          ety_num = dict_get entry ''etymology_number'';
          ety_num = (if ety_num = JNull then JInt 0 else ety_num)
      in py_str lib lang_code @ '':'' @ py_str lib word @ '':'' @ py_str lib pos
           @ '':'' @ py_str lib ety_num)"

definition JSON_FIELDS :: "string set" where
  "JSON_FIELDS = {''etymology_templates'', ''derived'', ''descendants'', ''alt_of'',
     ''form_of'', ''categories'', ''redirects''}"

text \<open>
  \<^verbatim>\<open>TARGET_KEYS\<close> is a Python set; the loop of \<^verbatim>\<open>normalize_entry\<close> visits its members in
  an order Python does not fix. The members are distinct and each iteration writes its
  own key only, so the resulting dict is the same for every order; the list below is the
  order of the source text.
\<close>

definition TARGET_KEYS :: "string list" where
  "TARGET_KEYS = [''word'', ''lang'', ''lang_code'', ''pos'', ''etymology_number'',
     ''etymology_text'', ''etymology_templates'', ''derived'', ''descendants'', ''alt_of'',
     ''form_of'', ''categories'', ''redirects'', ''literal_meaning'', ''wikidata'']"

text \<open>\<^verbatim>\<open>normalize_entry\<close>, lines 115 to 133; the result dict is a map from keys to values.\<close>

definition normalize_entry :: "pylib \<Rightarrow> (string \<times> json) list \<Rightarrow> (string \<rightharpoonup> json)" where
  "normalize_entry lib entry =
     (let out = fold (\<lambda>key out.
                   let v = dict_get entry key in
                   if key \<in> JSON_FIELDS
                   then out(key \<mapsto> (if v \<noteq> JNull then JStr (json_dumps lib v) else JNull))
                   else out(key \<mapsto> v))
                 TARGET_KEYS Map.empty
      in out(''node_id'' \<mapsto> JStr (make_node_id lib entry)))"

section \<open>The store\<close>

text \<open>
  What the \<^verbatim>\<open>sqlite3\<close> module hands to SQLite for a parameter: \<^verbatim>\<open>None\<close> is \<^verbatim>\<open>NULL\<close>, an
  \<^verbatim>\<open>int\<close> (and a \<^verbatim>\<open>bool\<close>, its subclass) is a 64-bit \<^verbatim>\<open>INTEGER\<close>, a \<^verbatim>\<open>str\<close> is \<^verbatim>\<open>TEXT\<close>;
  lists and dicts are refused. All parameters of a statement are bound, in order,
  before the statement runs.
\<close>

datatype sqlval = SqlNull | SqlInt int | SqlText string

fun sql_bind :: "json \<Rightarrow> error + sqlval" where
  "sql_bind JNull = Inr SqlNull"
| "sql_bind (JBool b) = Inr (SqlInt (if b then 1 else 0))"
| "sql_bind (JInt i) =
     (if - (2 ^ 63) \<le> i \<and> i < 2 ^ 63 then Inr (SqlInt i) else Inl OverflowError)"
| "sql_bind (JStr s) = Inr (SqlText s)"
| "sql_bind v = Inl BindingError"

fun bind_parameters :: "json list \<Rightarrow> error + sqlval list" where
  "bind_parameters [] = Inr []"
| "bind_parameters (p # ps) =
     (case sql_bind p of Inl e \<Rightarrow> Inl e
      | Inr v \<Rightarrow> (case bind_parameters ps of Inl e \<Rightarrow> Inl e | Inr vs \<Rightarrow> Inr (v # vs)))"

text \<open>
  Column affinity. A \<^verbatim>\<open>TEXT\<close> column, and a comparison of a \<^verbatim>\<open>TEXT\<close> column with a
  parameter, turn an integer into its decimal text. The \<^verbatim>\<open>INTEGER\<close> column keeps
  integers. Text given to it is stored by SQLite after a conversion by its rules for
  numeric literals (to an integer, to a float, or kept as text); the data model has
  integers only in this column, a row holds an integer or nothing there, and a run that
  gives the column a text is not followed further (\<open>Unmodelled\<close>). The runs that are
  followed to their end include every corpus of the data model (\<open>lexical_line\<close>,
  \<open>typed_line\<close> below).
\<close>

fun text_affinity :: "sqlval \<Rightarrow> string option" where
  "text_affinity SqlNull = None"
| "text_affinity (SqlInt i) = Some (int_str i)"
| "text_affinity (SqlText s) = Some s"

fun integer_affinity :: "sqlval \<Rightarrow> error + int option" where
  "integer_affinity SqlNull = Inr None"
| "integer_affinity (SqlInt i) = Inr (Some i)"
| "integer_affinity (SqlText s) = Inl Unmodelled"

text \<open>A row of the table \<^verbatim>\<open>entries\<close> (\<^verbatim>\<open>SCHEMA_ENTRIES\<close>) and one of \<^verbatim>\<open>edges\<close>.\<close>

record row =
  node_id :: string
  word :: string
  lang :: "string option"
  lang_code :: string
  pos :: "string option"
  etymology_number :: "int option"
  etymology_text :: "string option"
  etymology_templates :: "string option"
  derived :: "string option"
  descendants :: "string option"
  alt_of :: "string option"
  form_of :: "string option"
  categories :: "string option"
  redirects :: "string option"
  literal_meaning :: "string option"
  wikidata :: "string option"

record edge =
  src_id :: string
  dst_id :: string
  relation_type :: string
  raw_payload :: "string option"

text \<open>
  The database: both tables, rows in the order of their rowids. The foreign keys of
  \<^verbatim>\<open>edges\<close> are declared but SQLite does not enforce them unless a pragma asks for it,
  and the program sets none.
\<close>

record db =
  entries :: "row list"
  edges :: "edge list"

text \<open>
  \<^verbatim>\<open>INSERT OR REPLACE INTO entries\<close> with the sixteen bound parameters, in two steps. The
  row to store: each column applies its affinity; \<^verbatim>\<open>word\<close> and \<^verbatim>\<open>lang_code\<close> are
  \<^verbatim>\<open>NOT NULL\<close> without a default, so \<^verbatim>\<open>NULL\<close> there aborts the statement. A \<^verbatim>\<open>NULL\<close>
  \<^verbatim>\<open>node_id\<close> cannot come from the program (it is always an f-string) and is not
  followed. Then the replacement: \<^verbatim>\<open>node_id\<close> is the primary key and the only uniqueness
  constraint, so a row with the same \<^verbatim>\<open>node_id\<close> is deleted, and the new row gets a
  fresh, largest rowid.
\<close>

fun row_of_params :: "sqlval list \<Rightarrow> error + row" where
  "row_of_params [p_node_id, p_word, p_lang, p_lang_code, p_pos, p_ety, p_text,
       p_templates, p_derived, p_descendants, p_alt_of, p_form_of, p_categories,
       p_redirects, p_literal, p_wikidata] =
     (case integer_affinity p_ety of Inl e \<Rightarrow> Inl e
      | Inr ety \<Rightarrow>
     (case text_affinity p_node_id of None \<Rightarrow> Inl Unmodelled
      | Some nid \<Rightarrow>
     (case text_affinity p_word of None \<Rightarrow> Inl IntegrityError
      | Some w \<Rightarrow>
     (case text_affinity p_lang_code of None \<Rightarrow> Inl IntegrityError
      | Some lc \<Rightarrow>
        Inr \<lparr>node_id = nid, word = w, lang = text_affinity p_lang, lang_code = lc,
             pos = text_affinity p_pos, etymology_number = ety,
             etymology_text = text_affinity p_text,
             etymology_templates = text_affinity p_templates,
             derived = text_affinity p_derived,
             descendants = text_affinity p_descendants,
             alt_of = text_affinity p_alt_of, form_of = text_affinity p_form_of,
             categories = text_affinity p_categories,
             redirects = text_affinity p_redirects,
             literal_meaning = text_affinity p_literal,
             wikidata = text_affinity p_wikidata\<rparr>))))"
| "row_of_params ps = Inl BindingError"

definition insert_or_replace :: "sqlval list \<Rightarrow> db \<Rightarrow> error + db" where
  "insert_or_replace ps d =
     (case row_of_params ps of Inl e \<Rightarrow> Inl e
      | Inr r \<Rightarrow> Inr (d\<lparr>entries := filter (\<lambda>x. node_id x \<noteq> node_id r) (entries d) @ [r]\<rparr>))"

text \<open>\<^verbatim>\<open>INSERT INTO edges (src_id, dst_id, relation_type)\<close>: three strings, always accepted.\<close>

definition insert_edge :: "string \<Rightarrow> string \<Rightarrow> string \<Rightarrow> db \<Rightarrow> db" where
  "insert_edge src dst rel d =
     d\<lparr>edges := edges d @ [\<lparr>src_id = src, dst_id = dst, relation_type = rel,
                              raw_payload = None\<rparr>]\<rparr>"

text \<open>
  The \<^verbatim>\<open>SELECT\<close> of \<^verbatim>\<open>resolve_target_node\<close>: the rows whose \<^verbatim>\<open>lang_code\<close> and \<^verbatim>\<open>word\<close> are
  the two parameters, as \<^verbatim>\<open>(node_id, pos, etymology_number)\<close>, and the database as the
  statement leaves it. The statement has no \<^verbatim>\<open>ORDER BY\<close>; SQLite answers it from the
  index \<^verbatim>\<open>idx_entries_lang_word_pos\<close> on \<^verbatim>\<open>(lang_code, word, pos)\<close> that \<^verbatim>\<open>SCHEMA_ENTRIES\<close>
  declares, the only index that starts with the two columns compared, so the rows come in
  the order of that index: by \<^verbatim>\<open>pos\<close>, \<^verbatim>\<open>NULL\<close> first and text compared character by
  character, and by rowid among rows of equal \<^verbatim>\<open>pos\<close>. What is proved about order below
  is stated on the list \<open>pick_best\<close> receives.
\<close>

type_synonym candidate = "string \<times> string option \<times> int option"

definition select_candidates :: "string \<Rightarrow> string \<Rightarrow> db \<Rightarrow> candidate list \<times> db" where
  "select_candidates lc w d =
     (map (\<lambda>r. (node_id r, pos r, etymology_number r))
          (sort_key pos (filter (\<lambda>r. lang_code r = lc \<and> word r = w) (entries d))), d)"

section \<open>Phase 1: nodes\<close>

text \<open>
  A line of the corpus, after \<^verbatim>\<open>line.strip()\<close>: empty, or the outcome of \<^verbatim>\<open>json.loads\<close> on
  it, a parsed value or the exception raised (\<open>JSONDecodeError\<close> for text that is not
  JSON, \<open>UnicodeDecodeError\<close> for bytes that are not text).
\<close>

datatype line = Blank | Loads "error + json"

text \<open>
  The head of both loops (lines 166 to 178 and 347 to 357): what the body works on, or
  \<open>None\<close> where the loop says \<^verbatim>\<open>continue\<close>. Only \<^verbatim>\<open>json.JSONDecodeError\<close> is caught. The
  test \<^verbatim>\<open>"word" not in entry or "lang_code" not in entry\<close> is Python's \<^verbatim>\<open>in\<close> on whatever
  was parsed; a value that passes it and is no dict fails at the first \<^verbatim>\<open>entry.get\<close> of
  the body.
\<close>

fun read_entry :: "line \<Rightarrow> error + (string \<times> json) list option" where
  "read_entry Blank = Inr None"
| "read_entry (Loads (Inl e)) = (if e = JSONDecodeError then Inr None else Inl e)"
| "read_entry (Loads (Inr entry)) =
     (case py_in ''word'' entry of Inl e \<Rightarrow> Inl e
      | Inr has_word \<Rightarrow>
          if \<not> has_word then Inr None
          else (case py_in ''lang_code'' entry of Inl e \<Rightarrow> Inl e
                | Inr has_lang_code \<Rightarrow>
                    if \<not> has_lang_code then Inr None
                    else (case entry of JDict d \<Rightarrow> Inr (Some d) | _ \<Rightarrow> Inl AttributeError)))"

text \<open>\<^verbatim>\<open>norm.get(k)\<close> on the normalised dict.\<close>

definition norm_get :: "(string \<rightharpoonup> json) \<Rightarrow> string \<Rightarrow> json" where
  "norm_get norm k = (case norm k of None \<Rightarrow> JNull | Some v \<Rightarrow> v)"

text \<open>
  The body of the loop of \<^verbatim>\<open>insert_entries_from_jsonl\<close>, lines 180 to 202, on the
  database and \<^verbatim>\<open>count\<close>: the tuple \<^verbatim>\<open>params\<close>, then the statement. The commits every
  5000 entries do not change what a later statement of the same connection sees and are
  left out; an exception ends the program.
\<close>

definition entry_params :: "pylib \<Rightarrow> (string \<times> json) list \<Rightarrow> json list" where
  "entry_params lib entry =
     (let norm = normalize_entry lib entry
      in [norm_get norm ''node_id'', norm_get norm ''word'', norm_get norm ''lang'',
          norm_get norm ''lang_code'', norm_get norm ''pos'',
          norm_get norm ''etymology_number'', norm_get norm ''etymology_text'',
          norm_get norm ''etymology_templates'', norm_get norm ''derived'',
          norm_get norm ''descendants'', norm_get norm ''alt_of'',
          norm_get norm ''form_of'', norm_get norm ''categories'',
          norm_get norm ''redirects'', norm_get norm ''literal_meaning'',
          norm_get norm ''wikidata''])"

definition insert_entry :: "pylib \<Rightarrow> (string \<times> json) list \<Rightarrow> db \<times> nat \<Rightarrow> error + db \<times> nat" where
  "insert_entry lib entry st =
     (case bind_parameters (entry_params lib entry) of Inl e \<Rightarrow> Inl e
      | Inr ps \<Rightarrow> (case insert_or_replace ps (fst st) of Inl e \<Rightarrow> Inl e
                   | Inr d \<Rightarrow> Inr (d, snd st + 1)))"

definition insert_entries_line :: "pylib \<Rightarrow> line \<Rightarrow> db \<times> nat \<Rightarrow> error + db \<times> nat" where
  "insert_entries_line lib l st =
     (case read_entry l of Inl e \<Rightarrow> Inl e
      | Inr None \<Rightarrow> Inr st
      | Inr (Some entry) \<Rightarrow> insert_entry lib entry st)"

text \<open>
  \<^verbatim>\<open>insert_entries_from_jsonl\<close> on the database it opens and the lines of the file: the
  database and \<^verbatim>\<open>count\<close> at the end, or the exception that ended the run.
\<close>

definition insert_entries_from_jsonl :: "pylib \<Rightarrow> db \<Rightarrow> line list \<Rightarrow> error + db \<times> nat" where
  "insert_entries_from_jsonl lib d lines = for_each (insert_entries_line lib) lines (d, 0)"

section \<open>Phase 2: edges\<close>

text \<open>
  \<^verbatim>\<open>pick_best\<close>, lines 216 to 245. A candidate is a row \<^verbatim>\<open>(node_id, pos, etymology_number)\<close>
  of the \<^verbatim>\<open>SELECT\<close>; \<^verbatim>\<open>current_pos\<close> is \<^verbatim>\<open>str | None\<close>. The sort key is the Python tuple
  \<^verbatim>\<open>(r[2] is None, r[2])\<close>: \<^verbatim>\<open>False < True\<close> puts the rows with a number first, ordered by
  the number; two keys \<^verbatim>\<open>(True, None)\<close> are equal, which the \<open>0\<close> below stands for.
  \<^verbatim>\<open>list.sort\<close> is stable, and so is \<open>sort_key\<close>; a stable sort has one result only.
\<close>

definition ety_sort_key :: "candidate \<Rightarrow> bool \<times> int" where
  "ety_sort_key r = (case snd (snd r) of None \<Rightarrow> (True, 0) | Some n \<Rightarrow> (False, n))"

fun pick_best :: "candidate list \<Rightarrow> string option \<Rightarrow> string option" where
  "pick_best [] current_pos = None"
| "pick_best (c # cs) current_pos =
     (let candidates = c # cs;
          pos_matches =
            (case current_pos of None \<Rightarrow> []
             | Some cp \<Rightarrow>
                 if cp = [] then []
                 else filter (\<lambda>row. (case fst (snd row) of None \<Rightarrow> [] | Some p \<Rightarrow> p) = cp)
                        candidates)
      in case sort_key ety_sort_key pos_matches of
           best # rest \<Rightarrow> Some (fst best)
         | [] \<Rightarrow>
            (case filter (\<lambda>r. snd (snd r) = None \<or> snd (snd r) = Some 0) candidates of
               r # rest \<Rightarrow> Some (fst r)
             | [] \<Rightarrow> Some (fst c)))"

declare pick_best.simps [simp del]

text \<open>
  \<^verbatim>\<open>resolve_target_node\<close>, lines 248 to 275, with the types of its signature; the cursor
  is the database, passed in and returned.
\<close>

definition resolve_target_node ::
  "string option \<Rightarrow> string option \<Rightarrow> string option \<Rightarrow> db \<Rightarrow> string option \<times> db" where
  "resolve_target_node lc w current_pos d =
     (case (lc, w) of
        (Some l, Some x) \<Rightarrow>
          if l = [] \<or> x = [] then (None, d)
          else (case select_candidates l x d of
                  (rows, d') \<Rightarrow> if rows = [] then (None, d') else (pick_best rows current_pos, d'))
      | _ \<Rightarrow> (None, d))"

text \<open>
  \<^verbatim>\<open>iter_relation_items\<close>, lines 278 to 303. The generator raises only when its loop
  starts (a field that is not iterable), so the items it yields are a list or the run
  ends; each item yielded is the dict \<^verbatim>\<open>{"word": ..., "lang_code": ...}\<close>.
\<close>

fun relation_items :: "pylib \<Rightarrow> json list \<Rightarrow> (string \<times> json) list list" where
  "relation_items lib [] = []"
| "relation_items lib (JDict item # items) =
     (let w = dict_get item ''word'' in
      if \<not> truthy w then relation_items lib items
      else [(''word'', w),
            (''lang_code'', py_or (dict_get item ''lang_code'') (dict_get item ''lang''))]
           # relation_items lib items)"
| "relation_items lib (item # items) =
     [(''word'', JStr (py_str lib item)), (''lang_code'', JNull)] # relation_items lib items"

definition iter_relation_items ::
  "pylib \<Rightarrow> (string \<times> json) list \<Rightarrow> string \<Rightarrow> error + (string \<times> json) list list" where
  "iter_relation_items lib entry field =
     (case py_iter (py_or (dict_get entry field) (JList [])) of Inl e \<Rightarrow> Inl e
      | Inr items \<Rightarrow> Inr (relation_items lib items))"

text \<open>\<^verbatim>\<open>RELATION_SPECS\<close>, lines 307 to 313.\<close>

definition RELATION_SPECS :: "(string \<times> string \<times> bool \<times> bool) list" where
  "RELATION_SPECS =
     [(''alt_of'', ''alt_of'', True, True),
      (''form_of'', ''form_of'', True, True),
      (''redirects'', ''redirect'', True, True),
      (''derived'', ''derived'', False, True),
      (''descendants'', ''descendant'', False, False)]"

text \<open>
  The arguments the edge pass gives to \<^verbatim>\<open>resolve_target_node\<close> are parsed values. The two
  that reach the \<^verbatim>\<open>SELECT\<close> are bound and compared with \<^verbatim>\<open>TEXT\<close> columns (\<open>sql_text\<close>); both
  are truthy where the call is made, so their text is not empty. \<^verbatim>\<open>current_pos\<close> is only
  tested for truth and compared with strings by \<^verbatim>\<open>==\<close>, which is false for anything that
  is not a string: such a value acts as \<^verbatim>\<open>None\<close> (\<open>pos_hint\<close>).
\<close>

definition sql_text :: "json \<Rightarrow> error + string option" where
  "sql_text v = (case sql_bind v of Inl e \<Rightarrow> Inl e | Inr p \<Rightarrow> Inr (text_affinity p))"

definition pos_hint :: "json \<Rightarrow> string option" where
  "pos_hint v = (case v of JStr s \<Rightarrow> Some s | _ \<Rightarrow> None)"

text \<open>
  The body of the inner loop of \<^verbatim>\<open>insert_edges_from_jsonl\<close>, lines 367 to 385, for one
  item \<open>rel\<close>, on the database, \<^verbatim>\<open>count_entries\<close> and \<^verbatim>\<open>count_edges\<close>.
\<close>

definition insert_edge_for ::
  "string \<Rightarrow> json \<Rightarrow> json \<Rightarrow> string \<Rightarrow> bool \<Rightarrow> bool \<Rightarrow> (string \<times> json) list
     \<Rightarrow> db \<times> nat \<times> nat \<Rightarrow> error + db \<times> nat \<times> nat" where
  "insert_edge_for src current_pos entry_lang rel_type use_pos fallback_entry_lang rel st =
     (case st of (d, count_entries, count_edges) \<Rightarrow>
      let target_word = dict_get rel ''word'' in
      if \<not> truthy target_word then Inr st
      else
        let target_lang = dict_get rel ''lang_code'';
            target_lang = (if \<not> truthy target_lang \<and> fallback_entry_lang then entry_lang
                           else target_lang)
        in
        if \<not> truthy target_lang then Inr st
        else
          let pos_for_match = (if use_pos then current_pos else JNull) in
          case sql_text target_lang of Inl e \<Rightarrow> Inl e
          | Inr lc \<Rightarrow>
          (case sql_text target_word of Inl e \<Rightarrow> Inl e
           | Inr w \<Rightarrow>
           (case resolve_target_node lc w (pos_hint pos_for_match) d of
              (None, d') \<Rightarrow> Inr (d', count_entries, count_edges)
            | (Some dst, d') \<Rightarrow>
                if dst = [] then Inr (d', count_entries, count_edges)
                else Inr (insert_edge src dst rel_type d', count_entries, count_edges + 1))))"

text \<open>One row of \<^verbatim>\<open>RELATION_SPECS\<close> for one entry (lines 365 and 366), then all rows.\<close>

definition insert_edges_for_spec ::
  "pylib \<Rightarrow> (string \<times> json) list \<Rightarrow> string \<Rightarrow> json \<Rightarrow> json \<Rightarrow> string \<times> string \<times> bool \<times> bool
     \<Rightarrow> db \<times> nat \<times> nat \<Rightarrow> error + db \<times> nat \<times> nat" where
  "insert_edges_for_spec lib entry src current_pos entry_lang spec st =
     (case spec of (field, rel_type, use_pos, fallback_entry_lang) \<Rightarrow>
      (case iter_relation_items lib entry field of Inl e \<Rightarrow> Inl e
       | Inr rels \<Rightarrow>
           for_each (insert_edge_for src current_pos entry_lang rel_type use_pos
                       fallback_entry_lang)
             rels st))"

text \<open>The body of the outer loop for one entry, lines 359 to 385.\<close>

definition insert_entry_edges ::
  "pylib \<Rightarrow> (string \<times> json) list \<Rightarrow> db \<times> nat \<times> nat \<Rightarrow> error + db \<times> nat \<times> nat" where
  "insert_entry_edges lib entry st =
     (case st of (d, count_entries, count_edges) \<Rightarrow>
        let src = make_node_id lib entry;
            current_pos = dict_get entry ''pos'';
            entry_lang = dict_get entry ''lang_code''
        in for_each (insert_edges_for_spec lib entry src current_pos entry_lang) RELATION_SPECS
             (d, count_entries + 1, count_edges))"

definition insert_edges_line ::
  "pylib \<Rightarrow> line \<Rightarrow> db \<times> nat \<times> nat \<Rightarrow> error + db \<times> nat \<times> nat" where
  "insert_edges_line lib l st =
     (case read_entry l of Inl e \<Rightarrow> Inl e
      | Inr None \<Rightarrow> Inr st
      | Inr (Some entry) \<Rightarrow> insert_entry_edges lib entry st)"

text \<open>
  \<^verbatim>\<open>insert_edges_from_jsonl\<close>: the database, \<^verbatim>\<open>count_entries\<close> and \<^verbatim>\<open>count_edges\<close> at the end,
  or the exception that ended the run.
\<close>

definition insert_edges_from_jsonl ::
  "pylib \<Rightarrow> db \<Rightarrow> line list \<Rightarrow> error + db \<times> nat \<times> nat" where
  "insert_edges_from_jsonl lib d lines = for_each (insert_edges_line lib) lines (d, 0, 0)"

section \<open>Notions of the specification\<close>

text \<open>
  The order the specification puts on etymology-sense numbers: an absent number is
  larger than every number.
\<close>

fun ety_le :: "int option \<Rightarrow> int option \<Rightarrow> bool" where
  "ety_le (Some a) (Some b) = (a \<le> b)"
| "ety_le (Some a) None = True"
| "ety_le None (Some b) = False"
| "ety_le None None = True"

text \<open>The candidates whose part of speech is \<open>cp\<close>, in retrieval order.\<close>

definition pos_matching :: "string \<Rightarrow> candidate list \<Rightarrow> candidate list" where
  "pos_matching cp candidates = filter (\<lambda>r. fst (snd r) = Some cp) candidates"

text \<open>\<open>r\<close> has the smallest etymology-sense number among \<open>ms\<close>.\<close>

definition smallest_ety :: "candidate list \<Rightarrow> candidate \<Rightarrow> bool" where
  "smallest_ety ms r = (\<forall>r' \<in> set ms. ety_le (snd (snd r)) (snd (snd r')))"

text \<open>The candidates \<open>pick_best\<close> sorts (its list \<^verbatim>\<open>pos_matches\<close>, empty when step 1 is skipped).\<close>

definition pos_matches_of :: "candidate list \<Rightarrow> string option \<Rightarrow> candidate list" where
  "pos_matches_of candidates current_pos =
     (case current_pos of None \<Rightarrow> []
      | Some cp \<Rightarrow>
          if cp = [] then []
          else filter (\<lambda>row. (case fst (snd row) of None \<Rightarrow> [] | Some p \<Rightarrow> p) = cp) candidates)"

text \<open>
  The types the data model gives the four attributes of the identity: a string, or a
  number, that may be absent or null; and their values with the defaults of the
  specification (the empty string, 0).
\<close>

definition text_or_absent :: "(string \<times> json) list \<Rightarrow> string \<Rightarrow> bool" where
  "text_or_absent entry k =
     (case map_of entry k of None \<Rightarrow> True | Some JNull \<Rightarrow> True | Some (JStr s) \<Rightarrow> True
      | Some v \<Rightarrow> False)"

definition int_or_absent :: "(string \<times> json) list \<Rightarrow> string \<Rightarrow> bool" where
  "int_or_absent entry k =
     (case map_of entry k of None \<Rightarrow> True | Some JNull \<Rightarrow> True | Some (JInt i) \<Rightarrow> True
      | Some v \<Rightarrow> False)"

definition text_field :: "(string \<times> json) list \<Rightarrow> string \<Rightarrow> string" where
  "text_field entry k = (case map_of entry k of Some (JStr s) \<Rightarrow> s | _ \<Rightarrow> [])"

definition number_field :: "(string \<times> json) list \<Rightarrow> string \<Rightarrow> int" where
  "number_field entry k = (case map_of entry k of Some (JInt i) \<Rightarrow> i | _ \<Rightarrow> 0)"

text \<open>
  What the specification has the extractor emit for one item of a relation list: nothing
  for a structured item whose \<open>word\<close> is missing or empty; \<open>word\<close> and the language for
  the other structured items, the language being the item's \<open>lang_code\<close>, else its
  \<open>lang\<close>, else null; for an item that is not structured, its text and no language.
\<close>

fun reference_of :: "pylib \<Rightarrow> json \<Rightarrow> (string \<times> json) list option" where
  "reference_of lib (JDict item) =
     (case map_of item ''word'' of
        None \<Rightarrow> None
      | Some w \<Rightarrow>
          if \<not> truthy w then None
          else Some [(''word'', w),
                 (''lang_code'',
                    (case map_of item ''lang_code'' of
                       Some lc \<Rightarrow> if truthy lc then lc
                                 else (case map_of item ''lang'' of None \<Rightarrow> JNull | Some l \<Rightarrow> l)
                     | None \<Rightarrow> (case map_of item ''lang'' of None \<Rightarrow> JNull | Some l \<Rightarrow> l)))])"
| "reference_of lib item = Some [(''word'', JStr (py_str lib item)), (''lang_code'', JNull)]"

text \<open>
  For the examples: a row with the given identity, language, word, part of speech and
  etymology-sense number and nothing else, and a stand-in for the two library functions.
\<close>

definition plain_row :: "string \<Rightarrow> string \<Rightarrow> string \<Rightarrow> string option \<Rightarrow> int option \<Rightarrow> row" where
  "plain_row nid lc w p ety =
     \<lparr>node_id = nid, word = w, lang = None, lang_code = lc, pos = p, etymology_number = ety,
      etymology_text = None, etymology_templates = None, derived = None, descendants = None,
      alt_of = None, form_of = None, categories = None, redirects = None,
      literal_meaning = None, wikidata = None\<rparr>"

definition plain_lib :: pylib where
  "plain_lib = \<lparr>repr_str = id, json_dumps = py_repr id\<rparr>"

text \<open>
  The row phase 1 stores for an entry: the parameters bound, then the affinities and
  constraints of the columns. It is a function of the entry alone.
\<close>

definition stored_row :: "pylib \<Rightarrow> (string \<times> json) list \<Rightarrow> error + row" where
  "stored_row lib entry =
     (case bind_parameters (entry_params lib entry) of Inl e \<Rightarrow> Inl e
      | Inr ps \<Rightarrow> row_of_params ps)"

text \<open>
  The lines the loops pass over: a blank line, a line that \<^verbatim>\<open>json.loads\<close> rejects with
  \<open>JSONDecodeError\<close>, and a parsed object without the key \<open>word\<close> or without the key
  \<open>lang_code\<close>.
\<close>

fun skipped :: "line \<Rightarrow> bool" where
  "skipped Blank = True"
| "skipped (Loads (Inl e)) = (e = JSONDecodeError)"
| "skipped (Loads (Inr (JDict kvs))) =
     (''word'' \<notin> fst ` set kvs \<or> ''lang_code'' \<notin> fst ` set kvs)"
| "skipped (Loads (Inr v)) = False"

text \<open>
  The entries a corpus holds (the lines on which the loops run their body), in order.
\<close>

definition corpus_entries :: "line list \<Rightarrow> (string \<times> json) list list" where
  "corpus_entries lines =
     List.map_filter (\<lambda>l. case read_entry l of Inr (Some entry) \<Rightarrow> Some entry | _ \<Rightarrow> None) lines"

text \<open>
  From one state of phase 2 to a later one: the node set is the same and the edges are
  the earlier ones followed by new ones, each of which satisfies \<open>Q\<close>.
\<close>

definition adds_edges :: "(edge \<Rightarrow> bool) \<Rightarrow> db \<times> nat \<times> nat \<Rightarrow> db \<times> nat \<times> nat \<Rightarrow> bool" where
  "adds_edges Q st st' =
     (entries (fst st') = entries (fst st)
      \<and> (\<exists>new. edges (fst st') = edges (fst st) @ new \<and> (\<forall>e \<in> set new. Q e)))"

text \<open>
  A lexical entry as the data model has it: \<open>word\<close> and \<open>lang_code\<close> are strings; the
  language name, the part of speech and the free texts are strings that may be absent or
  null; the etymology-sense number is a 64-bit integer that may be absent or null.
\<close>

definition lexical_entry :: "(string \<times> json) list \<Rightarrow> bool" where
  "lexical_entry entry =
     ((case map_of entry ''word'' of Some (JStr w) \<Rightarrow> True | _ \<Rightarrow> False)
      \<and> (case map_of entry ''lang_code'' of Some (JStr l) \<Rightarrow> True | _ \<Rightarrow> False)
      \<and> text_or_absent entry ''lang'' \<and> text_or_absent entry ''pos''
      \<and> text_or_absent entry ''etymology_text'' \<and> text_or_absent entry ''literal_meaning''
      \<and> text_or_absent entry ''wikidata''
      \<and> (case map_of entry ''etymology_number'' of
            None \<Rightarrow> True | Some JNull \<Rightarrow> True
          | Some (JInt i) \<Rightarrow> - (2 ^ 63) \<le> i \<and> i < 2 ^ 63
          | Some v \<Rightarrow> False))"

text \<open>
  The attributes of the node of an entry, read off the entry: a string or a number
  where the entry has one, the serialised value of a nested field where the entry has
  one that is not null, and nothing otherwise.
\<close>

definition opt_text :: "(string \<times> json) list \<Rightarrow> string \<Rightarrow> string option" where
  "opt_text entry k = (case map_of entry k of Some (JStr s) \<Rightarrow> Some s | _ \<Rightarrow> None)"

definition opt_int :: "(string \<times> json) list \<Rightarrow> string \<Rightarrow> int option" where
  "opt_int entry k = (case map_of entry k of Some (JInt i) \<Rightarrow> Some i | _ \<Rightarrow> None)"

definition opt_blob :: "pylib \<Rightarrow> (string \<times> json) list \<Rightarrow> string \<Rightarrow> string option" where
  "opt_blob lib entry k =
     (case map_of entry k of None \<Rightarrow> None | Some JNull \<Rightarrow> None
      | Some v \<Rightarrow> Some (json_dumps lib v))"

definition node_of :: "pylib \<Rightarrow> (string \<times> json) list \<Rightarrow> row" where
  "node_of lib entry =
     \<lparr>node_id = make_node_id lib entry,
      word = text_field entry ''word'',
      lang = opt_text entry ''lang'',
      lang_code = text_field entry ''lang_code'',
      pos = opt_text entry ''pos'',
      etymology_number = opt_int entry ''etymology_number'',
      etymology_text = opt_text entry ''etymology_text'',
      etymology_templates = opt_blob lib entry ''etymology_templates'',
      derived = opt_blob lib entry ''derived'',
      descendants = opt_blob lib entry ''descendants'',
      alt_of = opt_blob lib entry ''alt_of'',
      form_of = opt_blob lib entry ''form_of'',
      categories = opt_blob lib entry ''categories'',
      redirects = opt_blob lib entry ''redirects'',
      literal_meaning = opt_text entry ''literal_meaning'',
      wikidata = opt_text entry ''wikidata''\<rparr>"

text \<open>The value SQLite holds for an optional text and for an optional integer.\<close>

definition text_cell :: "string option \<Rightarrow> sqlval" where
  "text_cell x = (case x of None \<Rightarrow> SqlNull | Some s \<Rightarrow> SqlText s)"

definition int_cell :: "int option \<Rightarrow> sqlval" where
  "int_cell x = (case x of None \<Rightarrow> SqlNull | Some i \<Rightarrow> SqlInt i)"

text \<open>
  A relation reference as the data model has it: a word and an optional language. The
  language a reference is resolved in is its own, or the citing entry's when it has none
  and the relation spec lets it inherit; the node it points to is what the resolver
  gives for that language and the word, with the citing entry's part of speech as a hint
  when the spec matches parts of speech. \<open>rows\<close> is the node set.
\<close>

definition opt_json :: "string option \<Rightarrow> json" where
  "opt_json x = (case x of None \<Rightarrow> JNull | Some s \<Rightarrow> JStr s)"

definition reference_language :: "bool \<Rightarrow> string option \<Rightarrow> string option \<Rightarrow> string option" where
  "reference_language inherits entry_lang own =
     (case own of
        Some l \<Rightarrow> if l \<noteq> [] then Some l else if inherits then entry_lang else None
      | None \<Rightarrow> if inherits then entry_lang else None)"

definition reference_target ::
  "bool \<Rightarrow> bool \<Rightarrow> string option \<Rightarrow> string option \<Rightarrow> string \<Rightarrow> string option \<Rightarrow> row list
     \<Rightarrow> string option" where
  "reference_target use_pos inherits entry_pos entry_lang w own rows =
     (case fst (resolve_target_node (reference_language inherits entry_lang own) (Some w)
                  (if use_pos then entry_pos else None) \<lparr>entries = rows, edges = []\<rparr>) of
        None \<Rightarrow> None
      | Some dst \<Rightarrow> if dst = [] then None else Some dst)"

text \<open>
  The word and the language of an extracted reference when both are of these types, and
  the edges one relation spec prescribes for a list of extracted references: one for each
  reference that has a target, in the order of the list.
\<close>

definition typed_reference :: "(string \<times> json) list \<Rightarrow> (string \<times> string option) option" where
  "typed_reference rel =
     (case dict_get rel ''word'' of
        JStr w \<Rightarrow> (case dict_get rel ''lang_code'' of
                     JStr l \<Rightarrow> Some (w, Some l) | JNull \<Rightarrow> Some (w, None) | _ \<Rightarrow> None)
      | _ \<Rightarrow> None)"

definition spec_edges ::
  "string \<Rightarrow> string \<Rightarrow> bool \<Rightarrow> bool \<Rightarrow> string option \<Rightarrow> string option
     \<Rightarrow> (string \<times> json) list list \<Rightarrow> row list \<Rightarrow> edge list" where
  "spec_edges src kind use_pos inherits entry_pos entry_lang rels rows =
     List.map_filter
       (\<lambda>rel. case typed_reference rel of
                 None \<Rightarrow> None
               | Some (w, own) \<Rightarrow>
                   map_option
                     (\<lambda>dst. \<lparr>src_id = src, dst_id = dst, relation_type = kind, raw_payload = None\<rparr>)
                     (reference_target use_pos inherits entry_pos entry_lang w own rows))
       rels"

text \<open>
  The references of an entry in a field, and the edges the specification prescribes for
  an entry: those of its alternate-of, form-of and redirect references (part of speech
  matched, language inherited), of its derived terms (not matched, inherited) and of its
  descendants (not matched, not inherited), in this order.
\<close>

definition references :: "pylib \<Rightarrow> (string \<times> json) list \<Rightarrow> string \<Rightarrow> (string \<times> json) list list" where
  "references lib entry field =
     (case iter_relation_items lib entry field of Inl e \<Rightarrow> [] | Inr rels \<Rightarrow> rels)"

definition entry_edges :: "pylib \<Rightarrow> (string \<times> json) list \<Rightarrow> row list \<Rightarrow> edge list" where
  "entry_edges lib entry rows =
     concat (map (\<lambda>(field, kind, use_pos, inherits).
                    spec_edges (make_node_id lib entry) kind use_pos inherits
                      (opt_text entry ''pos'') (opt_text entry ''lang_code'')
                      (references lib entry field) rows)
              [(''alt_of'', ''alt_of'', True, True), (''form_of'', ''form_of'', True, True),
               (''redirects'', ''redirect'', True, True), (''derived'', ''derived'', False, True),
               (''descendants'', ''descendant'', False, False)])"

text \<open>
  An entry whose language code is a string (or absent, or null) and whose five relation
  fields can be read and give references of the types above.
\<close>

definition typed_references :: "pylib \<Rightarrow> (string \<times> json) list \<Rightarrow> bool" where
  "typed_references lib entry =
     (text_or_absent entry ''lang_code''
      \<and> list_all (\<lambda>field.
            case iter_relation_items lib entry field of
              Inl e \<Rightarrow> False
            | Inr rels \<Rightarrow> list_all (\<lambda>rel. typed_reference rel \<noteq> None) rels)
          [''alt_of'', ''form_of'', ''redirects'', ''derived'', ''descendants''])"

text \<open>
  The language phase 2 asks for when it resolves an extracted reference, as a parsed
  value: the reference's own when it is truthy, else the citing entry's when the spec
  lets it inherit.
\<close>

definition target_language :: "bool \<Rightarrow> json \<Rightarrow> (string \<times> json) list \<Rightarrow> json" where
  "target_language inherits entry_lang rel =
     (if truthy (dict_get rel ''lang_code'') then dict_get rel ''lang_code''
      else if inherits then entry_lang else JNull)"

text \<open>
  \<open>e\<close> is an edge from \<open>entry\<close>: its source is the identity of \<open>entry\<close>, and for one of
  the relation specs and one reference of \<open>entry\<close> in the field of that spec, its kind is
  the kind of the spec and its destination is the identity of a node of \<open>rows\<close> whose
  word and language code are the word of the reference and the language it is resolved
  in.
\<close>

definition cites :: "pylib \<Rightarrow> row list \<Rightarrow> (string \<times> json) list \<Rightarrow> edge \<Rightarrow> bool" where
  "cites lib rows entry e =
     (src_id e = make_node_id lib entry
      \<and> (\<exists>spec \<in> set RELATION_SPECS.
           relation_type e = fst (snd spec)
           \<and> (\<exists>rel \<in> set (references lib entry (fst spec)).
                \<exists>r \<in> set rows.
                  node_id r = dst_id e
                  \<and> sql_text (dict_get rel ''word'') = Inr (Some (word r))
                  \<and> sql_text (target_language (snd (snd (snd spec)))
                                (dict_get entry ''lang_code'') rel)
                      = Inr (Some (lang_code r)))))"

text \<open>
  The lines of a corpus of the data model, for each phase: a line that is skipped, or an
  object that is a lexical entry (phase 1), that has both keys and typed references
  (phase 2).
\<close>

definition lexical_line :: "line \<Rightarrow> bool" where
  "lexical_line l =
     (skipped l \<or> (case l of Loads (Inr (JDict entry)) \<Rightarrow> lexical_entry entry | _ \<Rightarrow> False))"

definition typed_line :: "pylib \<Rightarrow> line \<Rightarrow> bool" where
  "typed_line lib l =
     (skipped l \<or> (case l of Loads (Inr (JDict entry)) \<Rightarrow> typed_references lib entry | _ \<Rightarrow> False))"

section \<open>Choosing among candidates\<close>

lemma ety_sort_key_le:
  "ety_sort_key r \<le> ety_sort_key r' \<longleftrightarrow> ety_le (snd (snd r)) (snd (snd r'))"
  by (cases "snd (snd r)"; cases "snd (snd r')") (auto simp: ety_sort_key_def less_eq_prod_def)

lemma find_filter: "find P xs = (case filter P xs of [] \<Rightarrow> None | x # _ \<Rightarrow> Some x)"
  by (induction xs) auto

lemma hd_sort_key_min:
  assumes "xs \<noteq> []"
  shows "hd (sort_key f xs) \<in> set xs \<and> (\<forall>y \<in> set xs. f (hd (sort_key f xs)) \<le> f y)"
proof -
  have "sort_key f xs \<noteq> []" using assms by (metis length_0_conv length_sort)
  then obtain h t where s: "sort_key f xs = h # t" by (cases "sort_key f xs") auto
  have "sorted (map f (h # t))" by (metis s sorted_sort_key)
  then have le: "\<forall>y \<in> set (h # t). f h \<le> f y" by auto
  have st: "set (h # t) = set xs" by (metis s set_sort)
  have "h \<in> set xs" using st by auto
  moreover have "\<forall>y \<in> set xs. f h \<le> f y" using le st by blast
  ultimately show ?thesis unfolding s by simp
qed

text \<open>
  The head of a stable sort is the first element, in the original order, whose key is
  least.
\<close>

lemma hd_sort_key_first:
  assumes "xs \<noteq> []"
  shows "find (\<lambda>x. \<forall>y \<in> set xs. f x \<le> f y) xs = Some (hd (sort_key f xs))"
proof -
  let ?s = "sort_key f xs"
  let ?h = "hd ?s"
  have ne: "?s \<noteq> []" using assms by (metis length_0_conv length_sort)
  have min: "?h \<in> set xs" "\<forall>y \<in> set xs. f ?h \<le> f y"
    using hd_sort_key_min [OF assms, of f] by auto
  have same: "(\<lambda>x. \<forall>y \<in> set xs. f x \<le> f y) x \<longleftrightarrow> f x = f ?h" if "x \<in> set xs" for x
    using min that by (metis order_antisym order_trans order_refl)
  have "filter (\<lambda>x. \<forall>y \<in> set xs. f x \<le> f y) xs = filter (\<lambda>x. f x = f ?h) xs"
    by (rule filter_cong) (auto simp: same)
  also have "\<dots> = filter (\<lambda>x. f x = f ?h) ?s" by (simp only: sort_key_stable)
  also have "\<dots> = ?h # filter (\<lambda>x. f x = f ?h) (tl ?s)"
    using ne by (cases ?s) auto
  finally show ?thesis by (simp add: find_filter del: sort_key_simps)
qed

lemma pick_best_sorted:
  assumes "candidates \<noteq> []"
  shows "pick_best candidates current_pos =
     (case sort_key ety_sort_key (pos_matches_of candidates current_pos) of
        best # rest \<Rightarrow> Some (fst best)
      | [] \<Rightarrow>
         (case filter (\<lambda>r. snd (snd r) = None \<or> snd (snd r) = Some 0) candidates of
            r # rest \<Rightarrow> Some (fst r)
          | [] \<Rightarrow> Some (fst (hd candidates))))"
proof -
  obtain c cs where c: "candidates = c # cs" using assms by (cases candidates) auto
  show ?thesis unfolding c pick_best.simps Let_def pos_matches_of_def list.sel ..
qed

lemma pos_matches_Some:
  assumes "cp \<noteq> []"
  shows "pos_matches_of candidates (Some cp) = pos_matching cp candidates"
proof -
  have "filter (\<lambda>row. (case fst (snd row) of None \<Rightarrow> [] | Some p \<Rightarrow> p) = cp) candidates
      = filter (\<lambda>r. fst (snd r) = Some cp) candidates"
    using assms by (intro filter_cong) (auto split: option.splits)
  then show ?thesis using assms by (simp add: pos_matches_of_def pos_matching_def)
qed

lemma pos_matches_none:
  assumes "current_pos = None \<or> current_pos = Some []
    \<or> (\<forall>r \<in> set candidates. fst (snd r) \<noteq> current_pos)"
  shows "pos_matches_of candidates current_pos = []"
  using assms by (auto simp: pos_matches_of_def filter_empty_conv split: option.splits)

lemma pos_matches_subset: "set (pos_matches_of candidates current_pos) \<subseteq> set candidates"
  by (auto simp: pos_matches_of_def split: option.splits)

text \<open>
  C1. When the candidate list is not empty, the caller supplies a non-empty
  \<open>current_pos\<close> and some candidate has that part of speech, \<open>pick_best\<close> returns the
  \<open>node_id\<close> of a candidate taken among exactly the candidates with that part of speech:
  the first of them, in retrieval order, whose etymology-sense number is smallest, an
  absent number counting as larger than every number.
\<close>

theorem pick_best_pos_match:
  assumes "candidates \<noteq> []" and "cp \<noteq> []"
    and "\<exists>r \<in> set candidates. fst (snd r) = Some cp"
  shows "\<exists>r. find (smallest_ety (pos_matching cp candidates)) (pos_matching cp candidates) = Some r
           \<and> pick_best candidates (Some cp) = Some (fst r)"
proof -
  let ?ms = "pos_matching cp candidates"
  have ne: "?ms \<noteq> []" using assms(3) by (auto simp: pos_matching_def filter_empty_conv)
  then have "sort_key ety_sort_key ?ms \<noteq> []" by (metis length_0_conv length_sort)
  then obtain b rest where s: "sort_key ety_sort_key ?ms = b # rest"
    by (cases "sort_key ety_sort_key ?ms") auto
  have "smallest_ety ?ms = (\<lambda>x. \<forall>y \<in> set ?ms. ety_sort_key x \<le> ety_sort_key y)"
    by (simp add: smallest_ety_def ety_sort_key_le fun_eq_iff)
  then have "find (smallest_ety ?ms) ?ms = Some (hd (sort_key ety_sort_key ?ms))"
    using hd_sort_key_first [OF ne, of ety_sort_key] by simp
  then have f: "find (smallest_ety ?ms) ?ms = Some b" unfolding s by simp
  have "pick_best candidates (Some cp) = Some (fst b)"
    unfolding pick_best_sorted [OF assms(1)] pos_matches_Some [OF assms(2)] s by simp
  with f show ?thesis by blast
qed

text \<open>
  The example of the specification: of A (noun, 1), B (noun, 0) and C (verb, 0), the
  noun with the smallest number is B.
\<close>

theorem pick_best_pos_match_witness:
  "[(''A'', Some ''noun'', Some 1), (''B'', Some ''noun'', Some 0),
    (''C'', Some ''verb'', Some (0::int))] \<noteq> []
   \<and> ''noun'' \<noteq> []
   \<and> (\<exists>r \<in> set [(''A'', Some ''noun'', Some 1), (''B'', Some ''noun'', Some 0),
                  (''C'', Some ''verb'', Some (0::int))]. fst (snd r) = Some ''noun'')
   \<and> pick_best [(''A'', Some ''noun'', Some 1), (''B'', Some ''noun'', Some 0),
                (''C'', Some ''verb'', Some 0)] (Some ''noun'') = Some ''B''"
  using pick_best_pos_match [of "[(''A'', Some ''noun'', Some 1), (''B'', Some ''noun'', Some 0),
    (''C'', Some ''verb'', Some 0)]" "''noun''"]
  by (simp add: pos_matching_def smallest_ety_def)

lemma pick_best_member:
  assumes "candidates \<noteq> []"
  shows "\<exists>r \<in> set candidates. pick_best candidates current_pos = Some (fst r)"
proof (cases "sort_key ety_sort_key (pos_matches_of candidates current_pos)")
  case (Cons b rest)
  then have "b \<in> set (pos_matches_of candidates current_pos)"
    by (metis list.set_intros(1) set_sort)
  then have "b \<in> set candidates" using pos_matches_subset by blast
  moreover have "pick_best candidates current_pos = Some (fst b)"
    unfolding pick_best_sorted [OF assms] Cons by simp
  ultimately show ?thesis by blast
next
  case Nil
  show ?thesis
  proof (cases "filter (\<lambda>r. snd (snd r) = None \<or> snd (snd r) = Some 0) candidates")
    case (Cons r rest)
    then have "r \<in> set (filter (\<lambda>r. snd (snd r) = None \<or> snd (snd r) = Some 0) candidates)"
      by simp
    then have "r \<in> set candidates" by simp
    moreover have "pick_best candidates current_pos = Some (fst r)"
      unfolding pick_best_sorted [OF assms] Nil Cons by simp
    ultimately show ?thesis by blast
  next
    case N2: Nil
    have "pick_best candidates current_pos = Some (fst (hd candidates))"
      unfolding pick_best_sorted [OF assms] Nil N2 by simp
    then show ?thesis using assms by auto
  qed
qed

text \<open>
  C2. On a candidate list that is not empty, when no \<open>current_pos\<close> is supplied (\<^verbatim>\<open>None\<close>
  or the empty string) or no candidate has the part of speech supplied, \<open>pick_best\<close>
  returns the \<open>node_id\<close> of the first candidate in retrieval order whose etymology-sense
  number is 0 or absent, and that of the first candidate when there is none. Whatever
  \<open>current_pos\<close> is, the result on such a list is the \<open>node_id\<close> of one of the candidates.
\<close>

theorem pick_best_fallback:
  assumes "candidates \<noteq> []"
  shows "(current_pos = None \<or> current_pos = Some []
            \<or> (\<forall>r \<in> set candidates. fst (snd r) \<noteq> current_pos)
          \<longrightarrow> pick_best candidates current_pos =
              (case find (\<lambda>r. snd (snd r) = None \<or> snd (snd r) = Some 0) candidates of
                 Some r \<Rightarrow> Some (fst r) | None \<Rightarrow> Some (fst (hd candidates))))
       \<and> (\<exists>r \<in> set candidates. pick_best candidates current_pos = Some (fst r))"
proof (intro conjI impI)
  assume "current_pos = None \<or> current_pos = Some []
            \<or> (\<forall>r \<in> set candidates. fst (snd r) \<noteq> current_pos)"
  then have "pos_matches_of candidates current_pos = []" by (rule pos_matches_none)
  then show "pick_best candidates current_pos =
              (case find (\<lambda>r. snd (snd r) = None \<or> snd (snd r) = Some 0) candidates of
                 Some r \<Rightarrow> Some (fst r) | None \<Rightarrow> Some (fst (hd candidates)))"
    unfolding pick_best_sorted [OF assms] find_filter
    by (simp split: list.splits)
next
  show "\<exists>r \<in> set candidates. pick_best candidates current_pos = Some (fst r)"
    by (rule pick_best_member [OF assms])
qed

text \<open>
  The example of the specification: of A (verb, 2) and B (adj, no number), with
  \<open>current_pos\<close> noun, B is returned.
\<close>

theorem pick_best_fallback_witness:
  "[(''A'', Some ''verb'', Some 2), (''B'', Some ''adj'', None :: int option)] \<noteq> []
   \<and> pick_best [(''A'', Some ''verb'', Some 2), (''B'', Some ''adj'', None)] (Some ''noun'') = Some ''B''"
  using pick_best_fallback [of "[(''A'', Some ''verb'', Some 2), (''B'', Some ''adj'', None)]" "Some ''noun''"]
  by simp

section \<open>Node identity\<close>

lemma py_str_text:
  assumes "text_or_absent entry k"
  shows "py_str lib (py_or (dict_get entry k) (JStr [])) = text_field entry k"
  using assms
  by (auto simp: text_or_absent_def text_field_def py_or_def dict_get_def py_str_def
      split: option.splits json.splits)

lemma py_str_number:
  assumes "int_or_absent entry k"
  shows "py_str lib (if dict_get entry k = JNull then JInt 0 else dict_get entry k)
     = int_str (number_field entry k)"
  using assms
  by (auto simp: int_or_absent_def number_field_def dict_get_def py_str_def
      split: option.splits json.splits)

lemma make_node_id_cong:
  assumes "\<forall>k \<in> {''lang_code'', ''word'', ''pos'', ''etymology_number''}. map_of entry' k = map_of entry k"
  shows "make_node_id lib entry' = make_node_id lib entry"
proof -
  have "dict_get entry' ''lang_code'' = dict_get entry ''lang_code''"
    "dict_get entry' ''word'' = dict_get entry ''word''"
    "dict_get entry' ''pos'' = dict_get entry ''pos''"
    "dict_get entry' ''etymology_number'' = dict_get entry ''etymology_number''"
    using assms by (simp_all add: dict_get_def)
  then show ?thesis by (simp only: make_node_id_def)
qed

text \<open>
  C3. For every entry whose \<open>lang_code\<close>, \<open>word\<close> and \<open>pos\<close> are strings and whose
  \<open>etymology_number\<close> is an integer, each possibly absent or null, \<open>make_node_id\<close> returns
  \<open>lang_code\<close>, \<open>word\<close>, \<open>pos\<close> and the decimal \<open>etymology_number\<close> joined by colons, an
  absent string being empty and an absent number 0. The result depends on these four
  attributes only: an entry that agrees on them has the same identity.
\<close>

theorem make_node_id_formula:
  assumes "text_or_absent entry ''lang_code''" and "text_or_absent entry ''word''"
    and "text_or_absent entry ''pos''" and "int_or_absent entry ''etymology_number''"
  shows "make_node_id lib entry =
           text_field entry ''lang_code'' @ '':'' @ text_field entry ''word'' @ '':''
           @ text_field entry ''pos'' @ '':'' @ int_str (number_field entry ''etymology_number'')
       \<and> (\<forall>entry'. (\<forall>k \<in> {''lang_code'', ''word'', ''pos'', ''etymology_number''}.
                        map_of entry' k = map_of entry k)
              \<longrightarrow> make_node_id lib entry' = make_node_id lib entry)"
proof
  show "make_node_id lib entry =
           text_field entry ''lang_code'' @ '':'' @ text_field entry ''word'' @ '':''
           @ text_field entry ''pos'' @ '':'' @ int_str (number_field entry ''etymology_number'')"
    unfolding make_node_id_def Let_def
    by (simp only: py_str_text [OF assms(1)] py_str_text [OF assms(2)] py_str_text [OF assms(3)]
        py_str_number [OF assms(4)])
next
  show "\<forall>entry'. (\<forall>k \<in> {''lang_code'', ''word'', ''pos'', ''etymology_number''}.
                        map_of entry' k = map_of entry k)
              \<longrightarrow> make_node_id lib entry' = make_node_id lib entry"
    using make_node_id_cong by blast
qed

lemma int_str_0: "int_str 0 = ''0''" by (simp add: int_str_def nat_digits.simps)

text \<open>The second entry of the end-to-end example: no \<open>etymology_number\<close>.\<close>

theorem make_node_id_formula_witness:
  "\<forall>lib. text_or_absent [(''word'', JStr ''bar''), (''lang_code'', JStr ''en''), (''pos'', JStr ''verb'')] ''lang_code''
     \<and> text_or_absent [(''word'', JStr ''bar''), (''lang_code'', JStr ''en''), (''pos'', JStr ''verb'')] ''word''
     \<and> text_or_absent [(''word'', JStr ''bar''), (''lang_code'', JStr ''en''), (''pos'', JStr ''verb'')] ''pos''
     \<and> int_or_absent [(''word'', JStr ''bar''), (''lang_code'', JStr ''en''), (''pos'', JStr ''verb'')] ''etymology_number''
     \<and> make_node_id lib [(''word'', JStr ''bar''), (''lang_code'', JStr ''en''), (''pos'', JStr ''verb'')]
         = ''en:bar:verb:0''
     \<and> make_node_id lib [(''word'', JStr ''bar''), (''lang_code'', JStr ''en''), (''pos'', JStr ''verb''), (''senses'', JList [])]
         = ''en:bar:verb:0''"
proof
  fix lib
  have a: "text_or_absent [(''word'', JStr ''bar''), (''lang_code'', JStr ''en''), (''pos'', JStr ''verb'')] ''lang_code''"
    "text_or_absent [(''word'', JStr ''bar''), (''lang_code'', JStr ''en''), (''pos'', JStr ''verb'')] ''word''"
    "text_or_absent [(''word'', JStr ''bar''), (''lang_code'', JStr ''en''), (''pos'', JStr ''verb'')] ''pos''"
    by (simp_all add: text_or_absent_def)
  have b: "int_or_absent [(''word'', JStr ''bar''), (''lang_code'', JStr ''en''), (''pos'', JStr ''verb'')] ''etymology_number''"
    by (simp add: int_or_absent_def)
  show "text_or_absent [(''word'', JStr ''bar''), (''lang_code'', JStr ''en''), (''pos'', JStr ''verb'')] ''lang_code''
     \<and> text_or_absent [(''word'', JStr ''bar''), (''lang_code'', JStr ''en''), (''pos'', JStr ''verb'')] ''word''
     \<and> text_or_absent [(''word'', JStr ''bar''), (''lang_code'', JStr ''en''), (''pos'', JStr ''verb'')] ''pos''
     \<and> int_or_absent [(''word'', JStr ''bar''), (''lang_code'', JStr ''en''), (''pos'', JStr ''verb'')] ''etymology_number''
     \<and> make_node_id lib [(''word'', JStr ''bar''), (''lang_code'', JStr ''en''), (''pos'', JStr ''verb'')]
         = ''en:bar:verb:0''
     \<and> make_node_id lib [(''word'', JStr ''bar''), (''lang_code'', JStr ''en''), (''pos'', JStr ''verb''), (''senses'', JList [])]
         = ''en:bar:verb:0''"
    using make_node_id_formula [OF a b, of lib] a b
    by (simp add: text_field_def number_field_def int_str_0)
qed

section \<open>Normalisation\<close>

lemma fold_map_upd:
  "fold (\<lambda>k m. m(k \<mapsto> f k)) ks m0 = (\<lambda>k. if k \<in> set ks then Some (f k) else m0 k)"
  by (induction ks arbitrary: m0) (auto simp: fun_eq_iff)

lemma normalize_entry_apply:
  "normalize_entry lib entry k =
     (if k = ''node_id'' then Some (JStr (make_node_id lib entry))
      else if k \<in> set TARGET_KEYS
           then Some (if k \<in> JSON_FIELDS
                      then (if dict_get entry k \<noteq> JNull
                            then JStr (json_dumps lib (dict_get entry k)) else JNull)
                      else dict_get entry k)
      else None)"
proof -
  have body: "(\<lambda>key out.
                   if key \<in> JSON_FIELDS
                   then out(key \<mapsto> (if dict_get entry key \<noteq> JNull
                            then JStr (json_dumps lib (dict_get entry key)) else JNull))
                   else out(key \<mapsto> dict_get entry key))
     = (\<lambda>key out. out(key \<mapsto> (if key \<in> JSON_FIELDS
                      then (if dict_get entry key \<noteq> JNull
                            then JStr (json_dumps lib (dict_get entry key)) else JNull)
                      else dict_get entry key)))"
    by (simp add: fun_eq_iff)
  show ?thesis
    unfolding normalize_entry_def Let_def body fold_map_upd by simp
qed

lemma node_id_not_target: "''node_id'' \<notin> set TARGET_KEYS"
  by (simp add: TARGET_KEYS_def)

lemma JSON_FIELDS_target: "JSON_FIELDS \<subseteq> set TARGET_KEYS"
  by (simp add: TARGET_KEYS_def JSON_FIELDS_def)

lemma dom_normalize_entry: "dom (normalize_entry lib entry) = set TARGET_KEYS \<union> {''node_id''}"
  by (auto simp: dom_def normalize_entry_apply split: if_splits)

text \<open>
  C9. For every raw entry the normalised record has exactly the keys of the allow-list
  and \<open>node_id\<close>, whatever other attributes the entry has; \<open>node_id\<close> is the computed
  identity; each of the seven list- or object-shaped attributes is null when the entry
  has no such attribute or has it null, and the string \<^verbatim>\<open>json.dumps\<close> gives for its value
  otherwise; every other attribute of the allow-list is the entry's value unchanged,
  null when the entry has none.
\<close>

theorem normalize_entry_projection:
  "dom (normalize_entry lib entry) = set TARGET_KEYS \<union> {''node_id''}
   \<and> normalize_entry lib entry ''node_id'' = Some (JStr (make_node_id lib entry))
   \<and> JSON_FIELDS \<subseteq> set TARGET_KEYS \<and> card JSON_FIELDS = 7
   \<and> (\<forall>k \<in> JSON_FIELDS. normalize_entry lib entry k =
          Some (case map_of entry k of None \<Rightarrow> JNull | Some JNull \<Rightarrow> JNull
                | Some v \<Rightarrow> JStr (json_dumps lib v)))
   \<and> (\<forall>k \<in> set TARGET_KEYS - JSON_FIELDS. normalize_entry lib entry k =
          Some (case map_of entry k of None \<Rightarrow> JNull | Some v \<Rightarrow> v))"
proof (intro conjI ballI)
  show "dom (normalize_entry lib entry) = set TARGET_KEYS \<union> {''node_id''}"
    by (rule dom_normalize_entry)
  show "normalize_entry lib entry ''node_id'' = Some (JStr (make_node_id lib entry))"
    by (simp add: normalize_entry_apply)
  show "JSON_FIELDS \<subseteq> set TARGET_KEYS" by (rule JSON_FIELDS_target)
  show "card JSON_FIELDS = 7" by (simp add: JSON_FIELDS_def)
next
  fix k assume k: "k \<in> JSON_FIELDS"
  then have "k \<in> set TARGET_KEYS" using JSON_FIELDS_target by blast
  moreover have "k \<noteq> ''node_id''" using calculation node_id_not_target by blast
  ultimately show "normalize_entry lib entry k =
          Some (case map_of entry k of None \<Rightarrow> JNull | Some JNull \<Rightarrow> JNull
                | Some v \<Rightarrow> JStr (json_dumps lib v))"
    using k by (simp add: normalize_entry_apply dict_get_def split: option.splits json.splits)
next
  fix k assume k: "k \<in> set TARGET_KEYS - JSON_FIELDS"
  then have "k \<noteq> ''node_id''" using node_id_not_target by blast
  then show "normalize_entry lib entry k =
          Some (case map_of entry k of None \<Rightarrow> JNull | Some v \<Rightarrow> v)"
    using k by (simp add: normalize_entry_apply dict_get_def)
qed

text \<open>
  An entry with a list of derived terms, a null \<open>pos\<close> and an attribute outside the
  allow-list.
\<close>

theorem normalize_entry_projection_witness:
  "\<forall>lib. normalize_entry lib [(''word'', JStr ''bar''), (''lang_code'', JStr ''en''),
              (''derived'', JList [JStr ''foo'']), (''senses'', JList []), (''pos'', JNull)] ''derived''
            = Some (JStr (json_dumps lib (JList [JStr ''foo''])))
      \<and> normalize_entry lib [(''word'', JStr ''bar''), (''lang_code'', JStr ''en''),
              (''derived'', JList [JStr ''foo'']), (''senses'', JList []), (''pos'', JNull)] ''descendants''
            = Some JNull
      \<and> normalize_entry lib [(''word'', JStr ''bar''), (''lang_code'', JStr ''en''),
              (''derived'', JList [JStr ''foo'']), (''senses'', JList []), (''pos'', JNull)] ''word''
            = Some (JStr ''bar'')
      \<and> normalize_entry lib [(''word'', JStr ''bar''), (''lang_code'', JStr ''en''),
              (''derived'', JList [JStr ''foo'']), (''senses'', JList []), (''pos'', JNull)] ''pos''
            = Some JNull
      \<and> normalize_entry lib [(''word'', JStr ''bar''), (''lang_code'', JStr ''en''),
              (''derived'', JList [JStr ''foo'']), (''senses'', JList []), (''pos'', JNull)] ''senses''
            = None"
proof
  fix lib
  let ?e = "[(''word'', JStr ''bar''), (''lang_code'', JStr ''en''),
              (''derived'', JList [JStr ''foo'']), (''senses'', JList []), (''pos'', JNull)]"
  note t = normalize_entry_projection [of lib ?e]
  have d: "''derived'' \<in> JSON_FIELDS" "''descendants'' \<in> JSON_FIELDS"
    by (simp_all add: JSON_FIELDS_def)
  have w: "''word'' \<in> set TARGET_KEYS - JSON_FIELDS" "''pos'' \<in> set TARGET_KEYS - JSON_FIELDS"
    by (simp_all add: JSON_FIELDS_def TARGET_KEYS_def)
  have s: "''senses'' \<notin> set TARGET_KEYS \<union> {''node_id''}" by (simp add: TARGET_KEYS_def)
  from t have "normalize_entry lib ?e ''derived'' = Some (JStr (json_dumps lib (JList [JStr ''foo''])))"
    using d(1) by simp
  moreover from t have "normalize_entry lib ?e ''descendants'' = Some JNull"
    using d(2) by simp
  moreover from t have "normalize_entry lib ?e ''word'' = Some (JStr ''bar'')"
    using w(1) by simp
  moreover from t have "normalize_entry lib ?e ''pos'' = Some JNull"
    using w(2) by simp
  moreover from t s have "normalize_entry lib ?e ''senses'' = None"
    by (metis domIff)
  ultimately show "normalize_entry lib ?e ''derived''
            = Some (JStr (json_dumps lib (JList [JStr ''foo''])))
      \<and> normalize_entry lib ?e ''descendants'' = Some JNull
      \<and> normalize_entry lib ?e ''word'' = Some (JStr ''bar'')
      \<and> normalize_entry lib ?e ''pos'' = Some JNull
      \<and> normalize_entry lib ?e ''senses'' = None"
    by blast
qed

section \<open>Extracting references\<close>

lemma relation_items_map_filter:
  "relation_items lib items = List.map_filter (reference_of lib) items"
  by (induction lib items rule: relation_items.induct)
    (auto simp: List.map_filter_simps Let_def dict_get_def py_or_def split: option.splits)

text \<open>
  C5. For every entry and field name: when the entry has no such field the extractor
  yields nothing; when the field is a list it yields, in the order of the list, what
  \<open>reference_of\<close> gives for each item, leaving out the structured items whose \<open>word\<close> is
  missing or empty. The result is a function of the entry and the field name alone.
\<close>

theorem iter_relation_items_extracts:
  "(map_of entry field = None \<longrightarrow> iter_relation_items lib entry field = Inr [])
   \<and> (\<forall>items. map_of entry field = Some (JList items) \<longrightarrow>
         iter_relation_items lib entry field = Inr (List.map_filter (reference_of lib) items))"
  by (auto simp: iter_relation_items_def dict_get_def py_or_def relation_items_map_filter
      List.map_filter_simps)

text \<open>The example of the specification: a bare string, then a structured item.\<close>

theorem iter_relation_items_extracts_witness:
  "\<forall>lib. map_of [(''word'', JStr ''w'')] ''derived'' = None
     \<and> iter_relation_items lib [(''word'', JStr ''w'')] ''derived'' = Inr []
     \<and> map_of [(''derived'', JList [JStr ''foo'',
            JDict [(''word'', JStr ''bar''), (''lang_code'', JStr ''en'')], JDict [(''lang'', JStr ''fr'')]])] ''derived''
         = Some (JList [JStr ''foo'',
            JDict [(''word'', JStr ''bar''), (''lang_code'', JStr ''en'')], JDict [(''lang'', JStr ''fr'')]])
     \<and> iter_relation_items lib
          [(''derived'', JList [JStr ''foo'',
            JDict [(''word'', JStr ''bar''), (''lang_code'', JStr ''en'')], JDict [(''lang'', JStr ''fr'')]])]
          ''derived''
        = Inr [[(''word'', JStr ''foo''), (''lang_code'', JNull)],
               [(''word'', JStr ''bar''), (''lang_code'', JStr ''en'')]]"
proof
  fix lib
  show "map_of [(''word'', JStr ''w'')] ''derived'' = None
     \<and> iter_relation_items lib [(''word'', JStr ''w'')] ''derived'' = Inr []
     \<and> map_of [(''derived'', JList [JStr ''foo'',
            JDict [(''word'', JStr ''bar''), (''lang_code'', JStr ''en'')], JDict [(''lang'', JStr ''fr'')]])] ''derived''
         = Some (JList [JStr ''foo'',
            JDict [(''word'', JStr ''bar''), (''lang_code'', JStr ''en'')], JDict [(''lang'', JStr ''fr'')]])
     \<and> iter_relation_items lib
          [(''derived'', JList [JStr ''foo'',
            JDict [(''word'', JStr ''bar''), (''lang_code'', JStr ''en'')], JDict [(''lang'', JStr ''fr'')]])]
          ''derived''
        = Inr [[(''word'', JStr ''foo''), (''lang_code'', JNull)],
               [(''word'', JStr ''bar''), (''lang_code'', JStr ''en'')]]"
    using iter_relation_items_extracts [of "[(''word'', JStr ''w'')]" "''derived''" lib]
      iter_relation_items_extracts [of "[(''derived'', JList [JStr ''foo'',
            JDict [(''word'', JStr ''bar''), (''lang_code'', JStr ''en'')], JDict [(''lang'', JStr ''fr'')]])]"
          "''derived''" lib]
    by (simp add: List.map_filter_simps py_str_def)
qed

section \<open>Resolving a reference\<close>

lemma select_candidates_db: "snd (select_candidates l x d) = d"
  by (simp add: select_candidates_def)

lemma sort_key_empty: "sort_key f xs = [] \<longleftrightarrow> xs = []"
  by (metis length_0_conv length_sort)

lemma select_candidates_empty:
  "fst (select_candidates l x d) = [] \<longleftrightarrow> (\<forall>r \<in> set (entries d). lang_code r = l \<longrightarrow> word r \<noteq> x)"
  by (simp add: select_candidates_def sort_key_empty filter_empty_conv del: sort_key_simps)

lemma pick_best_Some:
  assumes "candidates \<noteq> []"
  shows "pick_best candidates current_pos \<noteq> None"
  using pick_best_member [OF assms, of current_pos] by auto

lemma resolve_target_node_eq:
  "resolve_target_node lc w cp d =
     (case lc of None \<Rightarrow> (None, d)
      | Some l \<Rightarrow>
         (case w of None \<Rightarrow> (None, d)
          | Some x \<Rightarrow>
             if l = [] \<or> x = [] then (None, d)
             else if fst (select_candidates l x d) = [] then (None, d)
             else (pick_best (fst (select_candidates l x d)) cp, d)))"
  unfolding resolve_target_node_def
  by (cases lc; cases w) (simp_all add: select_candidates_def)

lemma resolve_target_node_db: "snd (resolve_target_node lc w cp d) = d"
  unfolding resolve_target_node_eq by (cases lc; cases w) simp_all

lemma resolve_target_node_None:
  "fst (resolve_target_node lc w cp d) = None \<longleftrightarrow>
     lc = None \<or> lc = Some [] \<or> w = None \<or> w = Some []
     \<or> (\<exists>l x. lc = Some l \<and> w = Some x
            \<and> (\<forall>r \<in> set (entries d). lang_code r = l \<longrightarrow> word r \<noteq> x))"
proof (cases lc)
  case None
  then show ?thesis by (simp add: resolve_target_node_eq)
next
  case (Some l)
  note l = this
  show ?thesis
  proof (cases w)
    case None
    then show ?thesis by (simp add: resolve_target_node_eq l)
  next
    case (Some x)
    show ?thesis
    proof (cases "l = [] \<or> x = []")
      case True
      then show ?thesis unfolding resolve_target_node_eq l Some by auto
    next
      case False
      let ?rows = "fst (select_candidates l x d)"
      have rows: "?rows = [] \<longleftrightarrow> (\<forall>r \<in> set (entries d). lang_code r = l \<longrightarrow> word r \<noteq> x)"
        by (rule select_candidates_empty)
      have "fst (resolve_target_node lc w cp d) = (if ?rows = [] then None else pick_best ?rows cp)"
        using False unfolding resolve_target_node_eq l Some by simp
      then have "fst (resolve_target_node lc w cp d) = None \<longleftrightarrow> ?rows = []"
        using pick_best_Some [of ?rows cp] by (simp split: if_splits)
      then show ?thesis using False unfolding rows l Some by simp
    qed
  qed
qed

text \<open>
  C6. \<open>resolve_target_node\<close> returns \<^verbatim>\<open>None\<close> exactly when \<open>lang_code\<close> or \<open>word\<close> is
  missing or empty, or no row of the node set has that \<open>lang_code\<close> and that \<open>word\<close>; and
  whatever it returns, the database after the call is the database before it.
\<close>

theorem resolve_target_node_unresolved:
  "(fst (resolve_target_node lc w cp d) = None \<longleftrightarrow>
      lc = None \<or> lc = Some [] \<or> w = None \<or> w = Some []
      \<or> (\<exists>l x. lc = Some l \<and> w = Some x
             \<and> (\<forall>r \<in> set (entries d). lang_code r = l \<longrightarrow> word r \<noteq> x)))
   \<and> snd (resolve_target_node lc w cp d) = d"
proof
  show "fst (resolve_target_node lc w cp d) = None \<longleftrightarrow>
      lc = None \<or> lc = Some [] \<or> w = None \<or> w = Some []
      \<or> (\<exists>l x. lc = Some l \<and> w = Some x
             \<and> (\<forall>r \<in> set (entries d). lang_code r = l \<longrightarrow> word r \<noteq> x))"
    by (rule resolve_target_node_None)
  show "snd (resolve_target_node lc w cp d) = d"
    by (rule resolve_target_node_db)
qed

text \<open>
  A node set with the one node \<open>en:foo:noun:0\<close>: \<open>foo\<close> resolves, \<open>bar\<close> and an empty
  language do not.
\<close>

theorem resolve_target_node_unresolved_witness:
  "fst (resolve_target_node (Some ''en'') (Some ''foo'') None
          \<lparr>entries = [plain_row ''en:foo:noun:0'' ''en'' ''foo'' (Some ''noun'') (Some 0)],
           edges = []\<rparr>) \<noteq> None
   \<and> fst (resolve_target_node (Some ''en'') (Some ''bar'') None
          \<lparr>entries = [plain_row ''en:foo:noun:0'' ''en'' ''foo'' (Some ''noun'') (Some 0)],
           edges = []\<rparr>) = None
   \<and> fst (resolve_target_node (Some []) (Some ''foo'') None
          \<lparr>entries = [plain_row ''en:foo:noun:0'' ''en'' ''foo'' (Some ''noun'') (Some 0)],
           edges = []\<rparr>) = None"
  using resolve_target_node_unresolved [of "Some ''en''" "Some ''foo''" None
          "\<lparr>entries = [plain_row ''en:foo:noun:0'' ''en'' ''foo'' (Some ''noun'') (Some 0)],
           edges = []\<rparr>"]
    resolve_target_node_unresolved [of "Some ''en''" "Some ''bar''" None
          "\<lparr>entries = [plain_row ''en:foo:noun:0'' ''en'' ''foo'' (Some ''noun'') (Some 0)],
           edges = []\<rparr>"]
    resolve_target_node_unresolved [of "Some []" "Some ''foo''" None
          "\<lparr>entries = [plain_row ''en:foo:noun:0'' ''en'' ''foo'' (Some ''noun'') (Some 0)],
           edges = []\<rparr>"]
  by (simp add: plain_row_def)

text \<open>
  The order of the candidates: with nodes stored as verb, then adjective, the \<^verbatim>\<open>SELECT\<close>
  gives the adjective first, and a reference resolved without a part of speech goes to
  it.
\<close>

lemma resolve_order_example:
  "fst (resolve_target_node (Some ''en'') (Some ''foo'') None
     \<lparr>entries = [plain_row ''en:foo:verb:0'' ''en'' ''foo'' (Some ''verb'') (Some 0),
                 plain_row ''en:foo:adj:0'' ''en'' ''foo'' (Some ''adj'') (Some 0)],
      edges = []\<rparr>)
   = Some ''en:foo:adj:0''"
  by (simp add: resolve_target_node_def select_candidates_def plain_row_def pick_best.simps
      ety_sort_key_def)

section \<open>Lines that are skipped, lines that end the run\<close>

lemma read_entry_skipped:
  assumes "skipped l"
  shows "read_entry l = Inr None"
  using assms by (induction l rule: skipped.induct) auto

lemma for_each_skip:
  assumes "\<And>s. body x s = Inr s"
  shows "for_each body (pre @ x # post) s = for_each body (pre @ post) s"
proof (induction pre arbitrary: s)
  case Nil
  show ?case by (simp add: assms)
next
  case (Cons p pre)
  show ?case by (simp add: Cons.IH split: sum.splits)
qed

text \<open>
  C8, as the code has it. In both passes a blank line, a line that fails to parse as
  JSON and a parsed object that lacks \<open>word\<close> or \<open>lang_code\<close> leave the database and every
  count as they are, and the run goes on as if the line were not in the corpus.
\<close>

theorem skipped_lines_continue:
  assumes "skipped l"
  shows "insert_entries_line lib l st = Inr st
       \<and> insert_edges_line lib l st' = Inr st'
       \<and> insert_entries_from_jsonl lib d (pre @ l # post)
           = insert_entries_from_jsonl lib d (pre @ post)
       \<and> insert_edges_from_jsonl lib d (pre @ l # post)
           = insert_edges_from_jsonl lib d (pre @ post)"
proof -
  have r: "read_entry l = Inr None" using assms by (rule read_entry_skipped)
  have a: "insert_entries_line lib l s = Inr s" for s
    by (simp add: insert_entries_line_def r)
  have b: "insert_edges_line lib l s = Inr s" for s
    by (simp add: insert_edges_line_def r)
  have "insert_entries_from_jsonl lib d (pre @ l # post)
           = insert_entries_from_jsonl lib d (pre @ post)"
    unfolding insert_entries_from_jsonl_def by (rule for_each_skip) (rule a)
  moreover have "insert_edges_from_jsonl lib d (pre @ l # post)
           = insert_edges_from_jsonl lib d (pre @ post)"
    unfolding insert_edges_from_jsonl_def by (rule for_each_skip) (rule b)
  ultimately show ?thesis using a b by simp
qed

text \<open>A record without \<open>lang_code\<close> between a blank line and a line that is not JSON.\<close>

theorem skipped_lines_continue_witness:
  "skipped (Loads (Inr (JDict [(''word'', JStr ''foo'')])))
   \<and> insert_entries_from_jsonl plain_lib \<lparr>entries = [], edges = []\<rparr>
        ([Blank] @ Loads (Inr (JDict [(''word'', JStr ''foo'')])) # [Loads (Inl JSONDecodeError)])
      = insert_entries_from_jsonl plain_lib \<lparr>entries = [], edges = []\<rparr>
        ([Blank] @ [Loads (Inl JSONDecodeError)])
   \<and> insert_edges_from_jsonl plain_lib \<lparr>entries = [], edges = []\<rparr>
        ([Blank] @ Loads (Inr (JDict [(''word'', JStr ''foo'')])) # [Loads (Inl JSONDecodeError)])
      = insert_edges_from_jsonl plain_lib \<lparr>entries = [], edges = []\<rparr>
        ([Blank] @ [Loads (Inl JSONDecodeError)])"
proof -
  have s: "skipped (Loads (Inr (JDict [(''word'', JStr ''foo'')])))" by simp
  show ?thesis
    using s skipped_lines_continue [OF s, of plain_lib _ _ "\<lparr>entries = [], edges = []\<rparr>"
        "[Blank]" "[Loads (Inl JSONDecodeError)]"]
    by blast
qed

text \<open>
  C8 as stated fails: some lines end the run. A line holding the JSON value \<^verbatim>\<open>null\<close>
  parses, has neither \<open>word\<close> nor \<open>lang_code\<close>, and the test \<^verbatim>\<open>"word" not in entry\<close> raises
  \<open>TypeError\<close> on it in both passes; an object whose \<open>word\<close> is \<^verbatim>\<open>null\<close> passes the test
  and the \<^verbatim>\<open>NOT NULL\<close> column refuses it in phase 1.
\<close>

theorem line_fatal_counterexample:
  "insert_entries_from_jsonl plain_lib \<lparr>entries = [], edges = []\<rparr> [Loads (Inr JNull)]
     = Inl TypeError
   \<and> insert_edges_from_jsonl plain_lib \<lparr>entries = [], edges = []\<rparr> [Loads (Inr JNull)]
     = Inl TypeError
   \<and> insert_entries_from_jsonl plain_lib \<lparr>entries = [], edges = []\<rparr>
       [Loads (Inr (JDict [(''word'', JNull), (''lang_code'', JStr ''en'')]))]
     = Inl IntegrityError"
proof (intro conjI)
  show "insert_entries_from_jsonl plain_lib \<lparr>entries = [], edges = []\<rparr> [Loads (Inr JNull)]
     = Inl TypeError"
    by (simp add: insert_entries_from_jsonl_def insert_entries_line_def)
  show "insert_edges_from_jsonl plain_lib \<lparr>entries = [], edges = []\<rparr> [Loads (Inr JNull)]
     = Inl TypeError"
    by (simp add: insert_edges_from_jsonl_def insert_edges_line_def)
  show "insert_entries_from_jsonl plain_lib \<lparr>entries = [], edges = []\<rparr>
       [Loads (Inr (JDict [(''word'', JNull), (''lang_code'', JStr ''en'')]))]
     = Inl IntegrityError"
    by (simp add: insert_entries_from_jsonl_def insert_entries_line_def insert_entry_def
        insert_or_replace_def entry_params_def Let_def norm_get_def
        normalize_entry_apply TARGET_KEYS_def JSON_FIELDS_def dict_get_def make_node_id_def
        py_or_def py_str_def int_str_def nat_digits.simps)
qed

section \<open>Phase 1: upsert by identity\<close>

lemma for_each_invariant:
  assumes "for_each body xs s = Inr s'" and "P s"
    and "\<And>x t t'. P t \<Longrightarrow> body x t = Inr t' \<Longrightarrow> P t'"
  shows "P s'"
  using assms(1,2)
proof (induction xs arbitrary: s)
  case Nil
  then show ?case by simp
next
  case (Cons x xs)
  from Cons.prems(1) obtain t where t: "body x s = Inr t" and r: "for_each body xs t = Inr s'"
    by (auto split: sum.splits)
  from assms(3) [OF Cons.prems(2) t] have "P t" .
  from Cons.IH [OF r this] show ?case .
qed

lemma bind_parameters_Cons:
  assumes "bind_parameters (p # ps) = Inr vs"
  obtains v vs' where "vs = v # vs'" and "sql_bind p = Inr v" and "bind_parameters ps = Inr vs'"
  using assms by (auto split: sum.splits)

lemma row_of_params_node_id:
  assumes "row_of_params (SqlText nid # rest) = Inr r"
  shows "node_id r = nid"
  using assms
  by (elim row_of_params.elims) (auto split: sum.splits option.splits)

lemma entry_params_hd:
  "\<exists>rest. entry_params lib entry = JStr (make_node_id lib entry) # rest"
  by (simp add: entry_params_def Let_def norm_get_def normalize_entry_apply)

lemma stored_row_node_id:
  assumes "stored_row lib entry = Inr r"
  shows "node_id r = make_node_id lib entry"
proof -
  obtain rest where ep: "entry_params lib entry = JStr (make_node_id lib entry) # rest"
    using entry_params_hd by blast
  from assms obtain ps where b: "bind_parameters (JStr (make_node_id lib entry) # rest) = Inr ps"
    and r: "row_of_params ps = Inr r"
    unfolding stored_row_def ep by (auto split: sum.splits)
  from b obtain v vs' where "ps = v # vs'" and "sql_bind (JStr (make_node_id lib entry)) = Inr v"
    by (rule bind_parameters_Cons)
  then have "ps = SqlText (make_node_id lib entry) # vs'" by simp
  with r show ?thesis using row_of_params_node_id by blast
qed

lemma insert_entry_Inr:
  assumes "insert_entry lib entry (d, n) = Inr (d', n')"
  obtains r where "stored_row lib entry = Inr r"
    and "entries d' = filter (\<lambda>x. node_id x \<noteq> node_id r) (entries d) @ [r]"
    and "edges d' = edges d" and "n' = n + 1"
proof -
  from assms obtain ps d1 where b: "bind_parameters (entry_params lib entry) = Inr ps"
    and i: "insert_or_replace ps d = Inr d1" and e: "d' = d1" "n' = n + 1"
    unfolding insert_entry_def by (auto split: sum.splits)
  from i obtain r where r: "row_of_params ps = Inr r"
    and d1: "d1 = d\<lparr>entries := filter (\<lambda>x. node_id x \<noteq> node_id r) (entries d) @ [r]\<rparr>"
    unfolding insert_or_replace_def by (auto split: sum.splits)
  have "stored_row lib entry = Inr r" unfolding stored_row_def b using r by simp
  moreover have "entries d' = filter (\<lambda>x. node_id x \<noteq> node_id r) (entries d) @ [r]"
    using d1 e by simp
  moreover have "edges d' = edges d" using d1 e by simp
  ultimately show ?thesis using that e by blast
qed

lemma replace_distinct:
  assumes "distinct (map node_id rs)"
  shows "distinct (map node_id (filter (\<lambda>x. node_id x \<noteq> node_id r) rs @ [r]))"
  using assms by (auto simp: distinct_map_filter)

lemma insert_entries_line_distinct:
  assumes "distinct (map node_id (entries (fst st)))"
    and "insert_entries_line lib l st = Inr st'"
  shows "distinct (map node_id (entries (fst st')))"
proof (cases "read_entry l")
  case (Inl e)
  then show ?thesis using assms(2) by (simp add: insert_entries_line_def)
next
  case (Inr oe)
  show ?thesis
  proof (cases oe)
    case None
    then show ?thesis using assms Inr by (simp add: insert_entries_line_def)
  next
    case (Some entry)
    obtain d n where st: "st = (d, n)" by (cases st)
    obtain d' n' where st': "st' = (d', n')" by (cases st')
    have "insert_entry lib entry (d, n) = Inr (d', n')"
      using assms(2) Inr Some st st' by (simp add: insert_entries_line_def)
    then obtain r where "entries d' = filter (\<lambda>x. node_id x \<noteq> node_id r) (entries d) @ [r]"
      by (rule insert_entry_Inr)
    then show ?thesis using assms(1) st st' replace_distinct by simp
  qed
qed

lemma text_affinity_cell: "text_affinity (text_cell x) = x"
  by (cases x) (simp_all add: text_cell_def)

lemma integer_affinity_cell: "integer_affinity (int_cell x) = Inr x"
  by (cases x) (simp_all add: int_cell_def)

lemma bind_text:
  assumes "text_or_absent entry k"
  shows "sql_bind (dict_get entry k) = Inr (text_cell (opt_text entry k))"
  using assms
  by (auto simp: text_or_absent_def dict_get_def opt_text_def text_cell_def
      split: option.splits json.splits)

lemma bind_required_text:
  assumes "(case map_of entry k of Some (JStr w) \<Rightarrow> True | _ \<Rightarrow> False)"
  shows "sql_bind (dict_get entry k) = Inr (SqlText (text_field entry k))"
  using assms
  by (auto simp: dict_get_def text_field_def split: option.splits json.splits)

lemma bind_blob:
  "sql_bind (if dict_get entry k \<noteq> JNull then JStr (json_dumps lib (dict_get entry k)) else JNull)
     = Inr (text_cell (opt_blob lib entry k))"
  by (auto simp: dict_get_def opt_blob_def text_cell_def split: option.splits json.splits)

lemma bind_int:
  assumes "(case map_of entry k of
            None \<Rightarrow> True | Some JNull \<Rightarrow> True
          | Some (JInt i) \<Rightarrow> - (2 ^ 63) \<le> i \<and> i < 2 ^ 63
          | Some v \<Rightarrow> False)"
  shows "sql_bind (dict_get entry k) = Inr (int_cell (opt_int entry k))"
  using assms
  by (auto simp: dict_get_def opt_int_def int_cell_def split: option.splits json.splits)

lemma entry_params_eq:
  "entry_params lib entry =
     [JStr (make_node_id lib entry), dict_get entry ''word'', dict_get entry ''lang'',
      dict_get entry ''lang_code'', dict_get entry ''pos'', dict_get entry ''etymology_number'',
      dict_get entry ''etymology_text'',
      (if dict_get entry ''etymology_templates'' \<noteq> JNull
       then JStr (json_dumps lib (dict_get entry ''etymology_templates'')) else JNull),
      (if dict_get entry ''derived'' \<noteq> JNull
       then JStr (json_dumps lib (dict_get entry ''derived'')) else JNull),
      (if dict_get entry ''descendants'' \<noteq> JNull
       then JStr (json_dumps lib (dict_get entry ''descendants'')) else JNull),
      (if dict_get entry ''alt_of'' \<noteq> JNull
       then JStr (json_dumps lib (dict_get entry ''alt_of'')) else JNull),
      (if dict_get entry ''form_of'' \<noteq> JNull
       then JStr (json_dumps lib (dict_get entry ''form_of'')) else JNull),
      (if dict_get entry ''categories'' \<noteq> JNull
       then JStr (json_dumps lib (dict_get entry ''categories'')) else JNull),
      (if dict_get entry ''redirects'' \<noteq> JNull
       then JStr (json_dumps lib (dict_get entry ''redirects'')) else JNull),
      dict_get entry ''literal_meaning'', dict_get entry ''wikidata'']"
  by (simp add: entry_params_def Let_def norm_get_def normalize_entry_apply TARGET_KEYS_def
      JSON_FIELDS_def)

lemma stored_row_lexical:
  assumes "lexical_entry entry"
  shows "stored_row lib entry = Inr (node_of lib entry)"
proof -
  from assms have w: "(case map_of entry ''word'' of Some (JStr w) \<Rightarrow> True | _ \<Rightarrow> False)"
    and l: "(case map_of entry ''lang_code'' of Some (JStr l) \<Rightarrow> True | _ \<Rightarrow> False)"
    and t: "text_or_absent entry ''lang''" "text_or_absent entry ''pos''"
      "text_or_absent entry ''etymology_text''" "text_or_absent entry ''literal_meaning''"
      "text_or_absent entry ''wikidata''"
    and n: "(case map_of entry ''etymology_number'' of
            None \<Rightarrow> True | Some JNull \<Rightarrow> True
          | Some (JInt i) \<Rightarrow> - (2 ^ 63) \<le> i \<and> i < 2 ^ 63
          | Some v \<Rightarrow> False)"
    unfolding lexical_entry_def by simp_all
  have b: "bind_parameters (entry_params lib entry) =
      Inr [SqlText (make_node_id lib entry), SqlText (text_field entry ''word''),
           text_cell (opt_text entry ''lang''), SqlText (text_field entry ''lang_code''),
           text_cell (opt_text entry ''pos''), int_cell (opt_int entry ''etymology_number''),
           text_cell (opt_text entry ''etymology_text''),
           text_cell (opt_blob lib entry ''etymology_templates''),
           text_cell (opt_blob lib entry ''derived''),
           text_cell (opt_blob lib entry ''descendants''),
           text_cell (opt_blob lib entry ''alt_of''),
           text_cell (opt_blob lib entry ''form_of''),
           text_cell (opt_blob lib entry ''categories''),
           text_cell (opt_blob lib entry ''redirects''),
           text_cell (opt_text entry ''literal_meaning''),
           text_cell (opt_text entry ''wikidata'')]"
    unfolding entry_params_eq
    by (simp only: bind_parameters.simps sql_bind.simps bind_required_text [OF w]
        bind_required_text [OF l] bind_text [OF t(1)] bind_text [OF t(2)] bind_text [OF t(3)]
        bind_text [OF t(4)] bind_text [OF t(5)] bind_int [OF n] bind_blob sum.case)
  show ?thesis
    unfolding stored_row_def b
    by (simp add: node_of_def text_affinity_cell integer_affinity_cell)
qed

lemma insert_entry_eq:
  "insert_entry lib entry (d, n) =
     (case stored_row lib entry of Inl e \<Rightarrow> Inl e
      | Inr r \<Rightarrow> Inr (d\<lparr>entries := filter (\<lambda>x. node_id x \<noteq> node_id r) (entries d) @ [r]\<rparr>, n + 1))"
  by (simp add: insert_entry_def stored_row_def insert_or_replace_def split: sum.splits)

lemma insert_entry_lexical:
  assumes "lexical_entry entry"
  shows "insert_entry lib entry (d, n) =
     Inr (d\<lparr>entries := filter (\<lambda>x. node_id x \<noteq> make_node_id lib entry) (entries d)
                         @ [node_of lib entry]\<rparr>, n + 1)"
  unfolding insert_entry_eq stored_row_lexical [OF assms] by (simp add: node_of_def)

lemma read_entry_dict:
  "read_entry (Loads (Inr (JDict entry))) =
     Inr (if skipped (Loads (Inr (JDict entry))) then None else Some entry)"
  by simp

lemma corpus_entries_step:
  "corpus_entries (l # lines) =
     (case read_entry l of Inr (Some entry) \<Rightarrow> entry # corpus_entries lines
      | _ \<Rightarrow> corpus_entries lines)"
  by (simp add: corpus_entries_def List.map_filter_def split: sum.splits option.splits)

lemma insert_entries_line_lexical:
  assumes "lexical_line l"
  shows "\<exists>d'. insert_entries_line lib l (d, n)
           = Inr (d', n + length (corpus_entries [l]))"
proof (cases "skipped l")
  case True
  then show ?thesis
    by (simp add: insert_entries_line_def read_entry_skipped corpus_entries_step
        corpus_entries_def)
next
  case False
  then obtain entry where l: "l = Loads (Inr (JDict entry))" and lex: "lexical_entry entry"
    using assms unfolding lexical_line_def
    by (auto split: line.splits sum.splits json.splits)
  have r: "read_entry l = Inr (Some entry)" using False unfolding l read_entry_dict by simp
  show ?thesis
    unfolding insert_entries_line_def r corpus_entries_step
    by (simp add: insert_entry_lexical [OF lex] corpus_entries_def)
qed

lemma for_each_lexical:
  assumes "list_all lexical_line lines"
  shows "\<exists>d'. for_each (insert_entries_line lib) lines (d, n)
           = Inr (d', n + length (corpus_entries lines))"
  using assms
proof (induction lines arbitrary: d n)
  case Nil
  show ?case by (simp add: corpus_entries_def)
next
  case (Cons l lines)
  from Cons.prems have l: "lexical_line l" and ls: "list_all lexical_line lines" by simp_all
  from insert_entries_line_lexical [OF l, of lib d n] obtain d1 where
    s: "insert_entries_line lib l (d, n) = Inr (d1, n + length (corpus_entries [l]))"
    by blast
  from Cons.IH [OF ls, of d1 "n + length (corpus_entries [l])"] obtain d' where
    "for_each (insert_entries_line lib) lines (d1, n + length (corpus_entries [l]))
       = Inr (d', n + length (corpus_entries [l]) + length (corpus_entries lines))"
    by blast
  moreover have "length (corpus_entries [l]) + length (corpus_entries lines)
      = length (corpus_entries (l # lines))"
    by (simp add: corpus_entries_def List.map_filter_def)
  ultimately show ?case by (simp add: s add.assoc)
qed

text \<open>Phase 1 runs to its end on a corpus of lexical entries and counts them.\<close>

lemma insert_entries_total:
  assumes "list_all lexical_line lines"
  shows "\<exists>d'. insert_entries_from_jsonl lib d lines = Inr (d', length (corpus_entries lines))"
  using for_each_lexical [OF assms, of lib d 0] by (simp add: insert_entries_from_jsonl_def)

text \<open>
  C7. Ingesting a lexical entry replaces whatever the node set holds under the entry's
  identity by the one node whose attributes are those of the new entry: every attribute
  the entry has, and nothing where it has none, whatever the node stored before had.
  Whenever an entry is ingested, the node set afterwards has exactly one node with the
  entry's identity and the nodes of other identities are as they were. A node set with at
  most one node per identity keeps that property through any run of phase 1; and phase 1
  runs to its end on every corpus whose lines are skipped or hold lexical entries,
  counting the entries.
\<close>

theorem upsert_replaces:
  "(lexical_entry entry \<longrightarrow>
      (\<forall>d n. insert_entry lib entry (d, n) =
         Inr (d\<lparr>entries := filter (\<lambda>x. node_id x \<noteq> make_node_id lib entry) (entries d)
                             @ [node_of lib entry]\<rparr>, n + 1)))
   \<and> (\<forall>d n d' n'. insert_entry lib entry (d, n) = Inr (d', n') \<longrightarrow>
      (\<exists>r. node_id r = make_node_id lib entry
         \<and> filter (\<lambda>x. node_id x = make_node_id lib entry) (entries d') = [r]
         \<and> filter (\<lambda>x. node_id x \<noteq> make_node_id lib entry) (entries d')
             = filter (\<lambda>x. node_id x \<noteq> make_node_id lib entry) (entries d)))
   \<and> (\<forall>d lines d' n. distinct (map node_id (entries d)) \<longrightarrow>
         insert_entries_from_jsonl lib d lines = Inr (d', n) \<longrightarrow>
         distinct (map node_id (entries d')))
   \<and> (\<forall>d lines. list_all lexical_line lines \<longrightarrow>
         (\<exists>d'. insert_entries_from_jsonl lib d lines
                 = Inr (d', length (corpus_entries lines))))"
proof (intro conjI allI impI)
  fix d n
  assume "lexical_entry entry"
  then show "insert_entry lib entry (d, n) =
         Inr (d\<lparr>entries := filter (\<lambda>x. node_id x \<noteq> make_node_id lib entry) (entries d)
                             @ [node_of lib entry]\<rparr>, n + 1)"
    by (rule insert_entry_lexical)
next
  fix d n d' n'
  assume "insert_entry lib entry (d, n) = Inr (d', n')"
  then obtain r where r: "stored_row lib entry = Inr r"
    and e: "entries d' = filter (\<lambda>x. node_id x \<noteq> node_id r) (entries d) @ [r]"
    by (rule insert_entry_Inr)
  have id: "node_id r = make_node_id lib entry" using r by (rule stored_row_node_id)
  have "filter (\<lambda>x. node_id x = make_node_id lib entry) (entries d') = [r]"
    unfolding e id [symmetric] by (simp add: filter_empty_conv)
  moreover have "filter (\<lambda>x. node_id x \<noteq> make_node_id lib entry) (entries d')
             = filter (\<lambda>x. node_id x \<noteq> make_node_id lib entry) (entries d)"
    unfolding e id [symmetric] by simp
  ultimately show "\<exists>r. node_id r = make_node_id lib entry
         \<and> filter (\<lambda>x. node_id x = make_node_id lib entry) (entries d') = [r]
         \<and> filter (\<lambda>x. node_id x \<noteq> make_node_id lib entry) (entries d')
             = filter (\<lambda>x. node_id x \<noteq> make_node_id lib entry) (entries d)"
    using id by blast
next
  fix d lines d' n
  assume dist: "distinct (map node_id (entries d))"
    and run: "insert_entries_from_jsonl lib d lines = Inr (d', n)"
  have "distinct (map node_id (entries (fst (d', n))))"
  proof (rule for_each_invariant [where P = "\<lambda>st. distinct (map node_id (entries (fst st)))"])
    show "for_each (insert_entries_line lib) lines (d, 0) = Inr (d', n)"
      using run by (simp add: insert_entries_from_jsonl_def)
    show "distinct (map node_id (entries (fst (d, 0::nat))))" using dist by simp
    show "\<And>x t t'. distinct (map node_id (entries (fst t))) \<Longrightarrow>
        insert_entries_line lib x t = Inr t' \<Longrightarrow> distinct (map node_id (entries (fst t')))"
      by (rule insert_entries_line_distinct)
  qed
  then show "distinct (map node_id (entries d'))" by simp
next
  fix d lines
  assume "list_all lexical_line lines"
  then show "\<exists>d'. insert_entries_from_jsonl lib d lines
                 = Inr (d', length (corpus_entries lines))"
    by (rule insert_entries_total)
qed

lemma node_of_example:
  "node_of lib [(''word'', JStr ''foo''), (''lang_code'', JStr ''en''), (''pos'', JStr ''noun''),
       (''etymology_number'', JInt 0), (''etymology_text'', JStr ''From bar.''),
       (''derived'', JList [JStr ''foobar''])]
   = (plain_row ''en:foo:noun:0'' ''en'' ''foo'' (Some ''noun'') (Some 0))
       \<lparr>etymology_text := Some ''From bar.'',
        derived := Some (json_dumps lib (JList [JStr ''foobar'']))\<rparr>"
  by (simp add: node_of_def make_node_id_def dict_get_def py_or_def py_str_def int_str_def
      nat_digits.simps text_field_def opt_text_def opt_int_def opt_blob_def plain_row_def)

lemma read_entry_example:
  "read_entry (Loads (Inr (JDict [(''word'', JStr ''foo''), (''lang_code'', JStr ''en''),
       (''pos'', JStr ''noun''), (''etymology_number'', JInt 0),
       (''etymology_text'', JStr ''From bar.''), (''derived'', JList [JStr ''foobar''])])))
   = Inr (Some [(''word'', JStr ''foo''), (''lang_code'', JStr ''en''),
       (''pos'', JStr ''noun''), (''etymology_number'', JInt 0),
       (''etymology_text'', JStr ''From bar.''), (''derived'', JList [JStr ''foobar''])])"
  by simp

text \<open>
  Ingesting \<open>en:foo:noun:0\<close> again into a node set that holds it with a language name, an
  older etymology text and a list of descendants: the node that remains has the new
  text and the new derived terms, no language name and no descendants.
\<close>

theorem upsert_replaces_witness:
  "\<forall>lib.
     lexical_entry [(''word'', JStr ''foo''), (''lang_code'', JStr ''en''), (''pos'', JStr ''noun''),
         (''etymology_number'', JInt 0), (''etymology_text'', JStr ''From bar.''),
         (''derived'', JList [JStr ''foobar''])]
   \<and> insert_entry lib [(''word'', JStr ''foo''), (''lang_code'', JStr ''en''), (''pos'', JStr ''noun''),
         (''etymology_number'', JInt 0), (''etymology_text'', JStr ''From bar.''),
         (''derived'', JList [JStr ''foobar''])]
       (\<lparr>entries = [(plain_row ''en:foo:noun:0'' ''en'' ''foo'' (Some ''noun'') (Some 0))
                      \<lparr>lang := Some ''English'', etymology_text := Some ''Unknown.'',
                       descendants := Some ''[]''\<rparr>], edges = []\<rparr>, 0)
     = Inr (\<lparr>entries = [(plain_row ''en:foo:noun:0'' ''en'' ''foo'' (Some ''noun'') (Some 0))
                      \<lparr>etymology_text := Some ''From bar.'',
                       derived := Some (json_dumps lib (JList [JStr ''foobar'']))\<rparr>],
              edges = []\<rparr>, 1)
   \<and> distinct (map node_id [(plain_row ''en:foo:noun:0'' ''en'' ''foo'' (Some ''noun'') (Some 0))
                      \<lparr>lang := Some ''English'', etymology_text := Some ''Unknown.'',
                       descendants := Some ''[]''\<rparr>])
   \<and> insert_entries_from_jsonl lib
        \<lparr>entries = [(plain_row ''en:foo:noun:0'' ''en'' ''foo'' (Some ''noun'') (Some 0))
                      \<lparr>lang := Some ''English'', etymology_text := Some ''Unknown.'',
                       descendants := Some ''[]''\<rparr>], edges = []\<rparr>
        [Loads (Inr (JDict [(''word'', JStr ''foo''), (''lang_code'', JStr ''en''),
           (''pos'', JStr ''noun''), (''etymology_number'', JInt 0),
           (''etymology_text'', JStr ''From bar.''), (''derived'', JList [JStr ''foobar''])]))]
      = Inr (\<lparr>entries = [(plain_row ''en:foo:noun:0'' ''en'' ''foo'' (Some ''noun'') (Some 0))
                      \<lparr>etymology_text := Some ''From bar.'',
                       derived := Some (json_dumps lib (JList [JStr ''foobar'']))\<rparr>],
               edges = []\<rparr>, 1)
   \<and> distinct (map node_id [(plain_row ''en:foo:noun:0'' ''en'' ''foo'' (Some ''noun'') (Some 0))
                      \<lparr>etymology_text := Some ''From bar.'',
                       derived := Some (json_dumps lib (JList [JStr ''foobar'']))\<rparr>])"
proof
  fix lib :: pylib
  let ?e = "[(''word'', JStr ''foo''), (''lang_code'', JStr ''en''), (''pos'', JStr ''noun''),
         (''etymology_number'', JInt 0), (''etymology_text'', JStr ''From bar.''),
         (''derived'', JList [JStr ''foobar''])]"
  let ?old = "\<lparr>entries = [(plain_row ''en:foo:noun:0'' ''en'' ''foo'' (Some ''noun'') (Some 0))
                      \<lparr>lang := Some ''English'', etymology_text := Some ''Unknown.'',
                       descendants := Some ''[]''\<rparr>], edges = []\<rparr>"
  let ?row = "(plain_row ''en:foo:noun:0'' ''en'' ''foo'' (Some ''noun'') (Some 0))
                      \<lparr>etymology_text := Some ''From bar.'',
                       derived := Some (json_dumps lib (JList [JStr ''foobar'']))\<rparr>"
  let ?new = "\<lparr>entries = [?row], edges = []\<rparr>"
  note t = upsert_replaces [of ?e lib]
  have lex: "lexical_entry ?e" by (simp add: lexical_entry_def text_or_absent_def)
  have id: "make_node_id lib ?e = ''en:foo:noun:0''"
    by (simp add: make_node_id_def dict_get_def py_or_def py_str_def int_str_def
        nat_digits.simps)
  from t [THEN conjunct1] lex have "insert_entry lib ?e (?old, 0) =
         Inr (?old\<lparr>entries := filter (\<lambda>x. node_id x \<noteq> make_node_id lib ?e) (entries ?old)
                             @ [node_of lib ?e]\<rparr>, 0 + 1)"
    by blast
  then have ins: "insert_entry lib ?e (?old, 0) = Inr (?new, 1)"
    unfolding node_of_example id by (simp add: plain_row_def)
  have run: "insert_entries_from_jsonl lib ?old [Loads (Inr (JDict ?e))] = Inr (?new, 1)"
    by (simp add: insert_entries_from_jsonl_def insert_entries_line_def ins
        del: read_entry.simps add: read_entry_example)
  have dist: "distinct (map node_id (entries ?old))" by simp
  from t [THEN conjunct2, THEN conjunct2, THEN conjunct1] dist run
  have c: "distinct (map node_id (entries ?new))" by blast
  show "lexical_entry ?e
   \<and> insert_entry lib ?e (?old, 0) = Inr (?new, 1)
   \<and> distinct (map node_id [(plain_row ''en:foo:noun:0'' ''en'' ''foo'' (Some ''noun'') (Some 0))
                      \<lparr>lang := Some ''English'', etymology_text := Some ''Unknown.'',
                       descendants := Some ''[]''\<rparr>])
   \<and> insert_entries_from_jsonl lib ?old [Loads (Inr (JDict ?e))] = Inr (?new, 1)
   \<and> distinct (map node_id [?row])"
    using lex ins run c dist by simp
qed

section \<open>Phase 2: one reference\<close>

lemma for_each_invariant_mem:
  assumes "for_each body xs s = Inr s'" and "P s"
    and "\<And>x t t'. x \<in> set xs \<Longrightarrow> P t \<Longrightarrow> body x t = Inr t' \<Longrightarrow> P t'"
  shows "P s'"
  using assms
proof (induction xs arbitrary: s)
  case Nil
  then show ?case by simp
next
  case (Cons x xs)
  from Cons.prems(1) obtain t where t: "body x s = Inr t" and r: "for_each body xs t = Inr s'"
    by (auto split: sum.splits)
  have "P t" using Cons.prems(3) [of x s t] Cons.prems(2) t by simp
  moreover have "P u'" if "y \<in> set xs" "P u" "body y u = Inr u'" for y u u'
    using Cons.prems(3) [of y u u'] that by simp
  ultimately show ?case using Cons.IH [OF r] by blast
qed

lemma resolve_target_node_Some:
  assumes "fst (resolve_target_node lc w cp d) = Some i"
  shows "\<exists>r \<in> set (entries d). node_id r = i \<and> lc = Some (lang_code r) \<and> w = Some (word r)"
proof -
  from assms obtain l where l: "lc = Some l"
    unfolding resolve_target_node_eq by (cases lc) auto
  from assms obtain x where x: "w = Some x"
    unfolding resolve_target_node_eq l by (cases w) auto
  let ?rows = "fst (select_candidates l x d)"
  from assms have ne: "?rows \<noteq> []" and pb: "pick_best ?rows cp = Some i"
    unfolding resolve_target_node_eq l x by (auto split: if_splits)
  from pick_best_member [OF ne, of cp] pb obtain c where c: "c \<in> set ?rows" and i: "i = fst c"
    by auto
  from c obtain r where r: "r \<in> set (entries d)" "lang_code r = l" "word r = x"
    and cr: "c = (node_id r, pos r, etymology_number r)"
    by (auto simp: select_candidates_def)
  show ?thesis using r cr i l x by auto
qed

text \<open>The resolver reads the node set only.\<close>

lemma resolve_target_node_entries:
  assumes "entries d' = entries d"
  shows "fst (resolve_target_node lc w cp d') = fst (resolve_target_node lc w cp d)"
  unfolding resolve_target_node_eq using assms
  by (cases lc; cases w) (simp_all add: select_candidates_def)

lemma resolve_target_node_case:
  "(case resolve_target_node lc w cp d of (None, d') \<Rightarrow> f d' | (Some dst, d') \<Rightarrow> g dst d')
     = (case fst (resolve_target_node lc w cp d) of None \<Rightarrow> f d | Some dst \<Rightarrow> g dst d)"
proof -
  obtain r d' where rd: "resolve_target_node lc w cp d = (r, d')"
    by (cases "resolve_target_node lc w cp d")
  have "d' = d" using resolve_target_node_db [of lc w cp d] rd by simp
  then show ?thesis unfolding rd by (cases r) simp_all
qed

text \<open>The body of the inner loop, with the resolver's answer in one place.\<close>

lemma insert_edge_for_eq:
  "insert_edge_for src cp el rt up fb rel (d, ce, cd) =
     (if \<not> truthy (dict_get rel ''word'') \<or> \<not> truthy (target_language fb el rel)
      then Inr (d, ce, cd)
      else case sql_text (target_language fb el rel) of Inl e \<Rightarrow> Inl e
        | Inr lc \<Rightarrow>
        (case sql_text (dict_get rel ''word'') of Inl e \<Rightarrow> Inl e
         | Inr w \<Rightarrow>
         (case fst (resolve_target_node lc w (pos_hint (if up then cp else JNull)) d) of
            None \<Rightarrow> Inr (d, ce, cd)
          | Some dst \<Rightarrow>
              if dst = [] then Inr (d, ce, cd)
              else Inr (insert_edge src dst rt d, ce, cd + 1))))"
proof -
  have nt: "truthy (if \<not> truthy (dict_get rel ''lang_code'') \<and> fb then el
                     else dict_get rel ''lang_code'')
      = truthy (target_language fb el rel)"
    by (auto simp: target_language_def)
  show ?thesis
  proof (cases "truthy (dict_get rel ''word'') \<and> truthy (target_language fb el rel)")
    case False
    then show ?thesis
      unfolding insert_edge_for_def Let_def using nt by auto
  next
    case True
    then have t: "(if \<not> truthy (dict_get rel ''lang_code'') \<and> fb then el
                   else dict_get rel ''lang_code'') = target_language fb el rel"
      by (auto simp: target_language_def split: if_splits)
    show ?thesis
      unfolding insert_edge_for_def Let_def t resolve_target_node_case using True
      by simp
  qed
qed

section \<open>The relation specs\<close>

lemma typed_reference_Some:
  assumes "typed_reference rel = Some (w, own)"
  shows "dict_get rel ''word'' = JStr w" and "dict_get rel ''lang_code'' = opt_json own"
  using assms
  by (auto simp: typed_reference_def opt_json_def split: json.splits)

lemma target_language_typed:
  assumes "dict_get rel ''lang_code'' = opt_json own"
  shows "target_language fb (opt_json el) rel =
     (case reference_language fb el own of
        Some l \<Rightarrow> JStr l
      | None \<Rightarrow> JNull)"
  unfolding target_language_def assms
  by (cases own; cases el) (auto simp: reference_language_def opt_json_def)

lemma pos_hint_flag:
  "pos_hint (if up then cp else JNull) = (if up then (case cp of JStr p \<Rightarrow> Some p | _ \<Rightarrow> None) else None)"
  by (simp add: pos_hint_def)

lemma resolve_target_node_rows:
  "fst (resolve_target_node lc w cp d)
     = fst (resolve_target_node lc w cp \<lparr>entries = entries d, edges = []\<rparr>)"
  by (rule resolve_target_node_entries) simp

lemma resolve_target_node_no_language:
  "fst (resolve_target_node None w cp d) = None"
  "fst (resolve_target_node (Some []) w cp d) = None"
  "fst (resolve_target_node lc (Some []) cp d) = None"
  unfolding resolve_target_node_eq by (simp_all split: option.splits)

text \<open>One typed reference: the edge added is the one to the target the specification names.\<close>

lemma insert_edge_for_typed:
  assumes "typed_reference rel = Some (w, own)"
  shows "insert_edge_for src cp (opt_json el) rt up fb rel (d, ce, cd) =
      (case reference_target up fb (case cp of JStr p \<Rightarrow> Some p | _ \<Rightarrow> None) el w own (entries d) of
         None \<Rightarrow> Inr (d, ce, cd)
       | Some dst \<Rightarrow>
           Inr (d\<lparr>edges := edges d @
                  [\<lparr>src_id = src, dst_id = dst, relation_type = rt, raw_payload = None\<rparr>]\<rparr>,
                ce, cd + 1))"
proof -
  note tr = typed_reference_Some [OF assms]
  note tl = target_language_typed [OF tr(2), of fb el]
  let ?hint = "if up then (case cp of JStr p \<Rightarrow> Some p | _ \<Rightarrow> None) else None"
  show ?thesis
  proof (cases "reference_language fb el own")
    case None
    have "\<not> truthy (target_language fb (opt_json el) rel)"
      unfolding tl None using None
      by (cases own) (auto simp: reference_language_def opt_json_def split: if_splits)
    moreover have "reference_target up fb (case cp of JStr p \<Rightarrow> Some p | _ \<Rightarrow> None) el w own (entries d) = None"
      by (simp add: reference_target_def None resolve_target_node_no_language)
    ultimately show ?thesis unfolding insert_edge_for_eq by simp
  next
    case (Some l)
    have t: "target_language fb (opt_json el) rel = JStr l" unfolding tl Some by simp
    show ?thesis
    proof (cases "l = [] \<or> w = []")
      case True
      then have "reference_target up fb (case cp of JStr p \<Rightarrow> Some p | _ \<Rightarrow> None) el w own (entries d) = None"
        by (auto simp: reference_target_def Some resolve_target_node_no_language)
      then show ?thesis unfolding insert_edge_for_eq t tr(1) using True by auto
    next
      case False
      define hint where "hint = pos_hint (if up then cp else JNull)"
      define x where "x = fst (resolve_target_node (Some l) (Some w) hint d)"
      have h: "(if up then (case cp of JStr p \<Rightarrow> Some p | _ \<Rightarrow> None) else None) = hint"
        unfolding hint_def by (rule pos_hint_flag [symmetric])
      have r: "fst (resolve_target_node (Some l) (Some w) hint \<lparr>entries = entries d, edges = []\<rparr>) = x"
        unfolding x_def by (rule resolve_target_node_rows [symmetric])
      have lhs: "insert_edge_for src cp (opt_json el) rt up fb rel (d, ce, cd) =
          (case x of None \<Rightarrow> Inr (d, ce, cd)
           | Some dst \<Rightarrow> if dst = [] then Inr (d, ce, cd)
                         else Inr (insert_edge src dst rt d, ce, cd + 1))"
        unfolding insert_edge_for_eq t tr(1) hint_def [symmetric]
        using False by (simp add: sql_text_def x_def)
      have rhs: "reference_target up fb (case cp of JStr p \<Rightarrow> Some p | _ \<Rightarrow> None) el w own (entries d)
          = (case x of None \<Rightarrow> None | Some dst \<Rightarrow> if dst = [] then None else Some dst)"
        unfolding reference_target_def Some h r ..
      show ?thesis unfolding lhs rhs
        by (cases x) (simp_all add: insert_edge_def)
    qed
  qed
qed

lemma spec_edges_Cons:
  "spec_edges src kind up inh ep el (rel # rels) rows =
     (case typed_reference rel of None \<Rightarrow> []
      | Some (w, own) \<Rightarrow>
          (case reference_target up inh ep el w own rows of None \<Rightarrow> []
           | Some dst \<Rightarrow> [\<lparr>src_id = src, dst_id = dst, relation_type = kind, raw_payload = None\<rparr>]))
     @ spec_edges src kind up inh ep el rels rows"
  by (auto simp: spec_edges_def List.map_filter_simps split: option.splits)

text \<open>The inner loop on typed references: the edges of the spec, in order.\<close>

lemma for_each_typed:
  assumes "\<forall>rel \<in> set rels. typed_reference rel \<noteq> None"
  shows "for_each (insert_edge_for src cp (opt_json el) rt up fb) rels (d, ce, cd) =
     Inr (d\<lparr>edges := edges d @
             spec_edges src rt up fb (case cp of JStr p \<Rightarrow> Some p | _ \<Rightarrow> None) el rels (entries d)\<rparr>,
          ce,
          cd + length (spec_edges src rt up fb (case cp of JStr p \<Rightarrow> Some p | _ \<Rightarrow> None) el rels
                         (entries d)))"
  using assms
proof (induction rels arbitrary: d cd)
  case Nil
  show ?case by (simp add: spec_edges_def List.map_filter_simps)
next
  case (Cons rel rels)
  from Cons.prems obtain w own where t: "typed_reference rel = Some (w, own)"
    by (cases "typed_reference rel") auto
  from Cons.prems have rest: "\<forall>rel \<in> set rels. typed_reference rel \<noteq> None" by simp
  note ih = Cons.IH [OF rest]
  show ?case
  proof (cases "reference_target up fb (case cp of JStr p \<Rightarrow> Some p | _ \<Rightarrow> None) el w own (entries d)")
    case None
    show ?thesis
      by (simp add: insert_edge_for_typed [OF t] None ih spec_edges_Cons t)
  next
    case (Some dst)
    show ?thesis
      by (simp add: insert_edge_for_typed [OF t] Some ih spec_edges_Cons t)
  qed
qed

lemma opt_json_opt_text:
  assumes "text_or_absent entry k"
  shows "dict_get entry k = opt_json (opt_text entry k)"
  using assms
  by (auto simp: text_or_absent_def dict_get_def opt_text_def opt_json_def
      split: option.splits json.splits)

lemma pos_of_entry:
  "(case dict_get entry k of JStr p \<Rightarrow> Some p | _ \<Rightarrow> None) = opt_text entry k"
  by (auto simp: dict_get_def opt_text_def split: option.splits json.splits)

lemma insert_edges_for_spec_typed:
  assumes "text_or_absent entry ''lang_code''"
    and "iter_relation_items lib entry field = Inr rels"
    and "\<forall>rel \<in> set rels. typed_reference rel \<noteq> None"
  shows "insert_edges_for_spec lib entry src (dict_get entry ''pos'') (dict_get entry ''lang_code'')
           (field, rt, up, fb) (d, ce, cd) =
     Inr (d\<lparr>edges := edges d @
             spec_edges src rt up fb (opt_text entry ''pos'') (opt_text entry ''lang_code'')
               (references lib entry field) (entries d)\<rparr>,
          ce,
          cd + length (spec_edges src rt up fb (opt_text entry ''pos'') (opt_text entry ''lang_code'')
                         (references lib entry field) (entries d)))"
proof -
  have r: "references lib entry field = rels" by (simp add: references_def assms(2))
  show ?thesis
    unfolding insert_edges_for_spec_def r
    by (simp add: assms(2) opt_json_opt_text [OF assms(1)] for_each_typed [OF assms(3)]
        pos_of_entry)
qed

lemma typed_references_field:
  assumes "typed_references lib entry"
    and "field \<in> set [''alt_of'', ''form_of'', ''redirects'', ''derived'', ''descendants'']"
  shows "\<exists>rels. iter_relation_items lib entry field = Inr rels
           \<and> (\<forall>rel \<in> set rels. typed_reference rel \<noteq> None)"
proof -
  from assms have "case iter_relation_items lib entry field of
              Inl e \<Rightarrow> False
            | Inr rels \<Rightarrow> list_all (\<lambda>rel. typed_reference rel \<noteq> None) rels"
    unfolding typed_references_def list_all_iff by blast
  then show ?thesis by (cases "iter_relation_items lib entry field") (auto simp: list_all_iff)
qed

lemma spec_step_typed:
  assumes "typed_references lib entry"
    and "field \<in> set [''alt_of'', ''form_of'', ''redirects'', ''derived'', ''descendants'']"
  shows "insert_edges_for_spec lib entry src (dict_get entry ''pos'') (dict_get entry ''lang_code'')
           (field, rt, up, fb) (d, ce, cd) =
     Inr (d\<lparr>edges := edges d @
             spec_edges src rt up fb (opt_text entry ''pos'') (opt_text entry ''lang_code'')
               (references lib entry field) (entries d)\<rparr>,
          ce,
          cd + length (spec_edges src rt up fb (opt_text entry ''pos'') (opt_text entry ''lang_code'')
                         (references lib entry field) (entries d)))"
proof -
  from typed_references_field [OF assms] obtain rels where
    "iter_relation_items lib entry field = Inr rels"
    "\<forall>rel \<in> set rels. typed_reference rel \<noteq> None"
    by blast
  moreover have "text_or_absent entry ''lang_code''"
    using assms(1) by (simp add: typed_references_def)
  ultimately show ?thesis by (rule insert_edges_for_spec_typed [rotated])
qed

text \<open>One entry with typed references: the edges of the five specs, in order.\<close>

lemma insert_entry_edges_typed:
  assumes "typed_references lib entry"
  shows "insert_entry_edges lib entry (d, ce, cd) =
     Inr (d\<lparr>edges := edges d @ entry_edges lib entry (entries d)\<rparr>, ce + 1,
          cd + length (entry_edges lib entry (entries d)))"
  unfolding insert_entry_edges_def RELATION_SPECS_def entry_edges_def Let_def
  by (simp add: spec_step_typed [OF assms])

section \<open>Phase 2: what an edge points to\<close>

text \<open>
  One item: nothing changes, or one edge is added, from \<open>src\<close> to a node whose word and
  language code are those the item was resolved with.
\<close>

lemma insert_edge_for_step:
  assumes "insert_edge_for src cp el rt up fb rel (d, ce, cd) = Inr st'"
  shows "st' = (d, ce, cd)
       \<or> (\<exists>r \<in> set (entries d).
             sql_text (dict_get rel ''word'') = Inr (Some (word r))
             \<and> sql_text (target_language fb el rel) = Inr (Some (lang_code r))
             \<and> st' = (insert_edge src (node_id r) rt d, ce, cd + 1))"
proof (cases "\<not> truthy (dict_get rel ''word'') \<or> \<not> truthy (target_language fb el rel)")
  case True
  then show ?thesis using assms unfolding insert_edge_for_eq by auto
next
  case False
  obtain lc where lc: "sql_text (target_language fb el rel) = Inr lc"
    using assms False unfolding insert_edge_for_eq
    by (cases "sql_text (target_language fb el rel)") auto
  obtain w where w: "sql_text (dict_get rel ''word'') = Inr w"
    using assms False unfolding insert_edge_for_eq lc
    by (cases "sql_text (dict_get rel ''word'')") auto
  define x where "x = fst (resolve_target_node lc w (pos_hint (if up then cp else JNull)) d)"
  have e: "(case x of None \<Rightarrow> Inr (d, ce, cd)
            | Some dst \<Rightarrow> if dst = [] then Inr (d, ce, cd)
                          else Inr (insert_edge src dst rt d, ce, cd + 1))
           = (Inr st' :: error + db \<times> nat \<times> nat)"
    using assms False unfolding insert_edge_for_eq lc w x_def by simp
  show ?thesis
  proof (cases x)
    case None
    then show ?thesis using e by simp
  next
    case (Some dst)
    show ?thesis
    proof (cases "dst = []")
      case True
      then show ?thesis using e Some by simp
    next
      case False
      then have s: "st' = (insert_edge src dst rt d, ce, cd + 1)" using e Some by simp
      from Some have "fst (resolve_target_node lc w (pos_hint (if up then cp else JNull)) d) = Some dst"
        by (simp add: x_def)
      from resolve_target_node_Some [OF this] obtain r where
        "r \<in> set (entries d)" "node_id r = dst" "lc = Some (lang_code r)" "w = Some (word r)"
        by blast
      then show ?thesis using s lc w by blast
    qed
  qed
qed

lemma adds_edges_refl: "adds_edges Q st st"
  by (simp add: adds_edges_def)

lemma adds_edges_trans:
  assumes "adds_edges Q s t" and "adds_edges Q t u"
  shows "adds_edges Q s u"
proof -
  from assms(1) obtain n1 where n1: "edges (fst t) = edges (fst s) @ n1" "\<forall>e \<in> set n1. Q e"
    and e1: "entries (fst t) = entries (fst s)" by (auto simp: adds_edges_def)
  from assms(2) obtain n2 where n2: "edges (fst u) = edges (fst t) @ n2" "\<forall>e \<in> set n2. Q e"
    and e2: "entries (fst u) = entries (fst t)" by (auto simp: adds_edges_def)
  have "edges (fst u) = edges (fst s) @ (n1 @ n2)" using n1 n2 by simp
  moreover have "\<forall>e \<in> set (n1 @ n2). Q e" using n1 n2 by auto
  ultimately show ?thesis unfolding adds_edges_def using e1 e2 by metis
qed

lemma adds_edges_mono:
  assumes "adds_edges Q s t" and "\<And>e. Q e \<Longrightarrow> Q' e"
  shows "adds_edges Q' s t"
  using assms unfolding adds_edges_def by blast

lemma adds_edges_one:
  assumes "Q \<lparr>src_id = src, dst_id = dst, relation_type = rt, raw_payload = None\<rparr>"
  shows "adds_edges Q (d, ce, cd) (insert_edge src dst rt d, ce', cd')"
proof -
  have "\<forall>e \<in> set [\<lparr>src_id = src, dst_id = dst, relation_type = rt, raw_payload = None\<rparr>]. Q e"
    using assms by simp
  moreover have "edges (insert_edge src dst rt d)
      = edges d @ [\<lparr>src_id = src, dst_id = dst, relation_type = rt, raw_payload = None\<rparr>]"
    by (simp add: insert_edge_def)
  moreover have "entries (insert_edge src dst rt d) = entries d" by (simp add: insert_edge_def)
  ultimately show ?thesis unfolding adds_edges_def by (metis fst_conv)
qed

lemma for_each_adds_edges:
  assumes "for_each body xs s = Inr s'"
    and "\<And>x t t'. x \<in> set xs \<Longrightarrow> entries (fst t) = entries (fst s) \<Longrightarrow> body x t = Inr t'
           \<Longrightarrow> adds_edges Q t t'"
  shows "adds_edges Q s s'"
proof (rule for_each_invariant_mem [where P = "\<lambda>t. adds_edges Q s t", OF assms(1)])
  show "adds_edges Q s s" by (rule adds_edges_refl)
next
  fix x t t'
  assume x: "x \<in> set xs" and t: "adds_edges Q s t" and b: "body x t = Inr t'"
  from t have "entries (fst t) = entries (fst s)" by (simp add: adds_edges_def)
  from assms(2) [OF x this b] have "adds_edges Q t t'" .
  with t show "adds_edges Q s t'" by (rule adds_edges_trans)
qed

text \<open>One relation spec of one entry: every edge added is an edge from the entry.\<close>

lemma insert_edges_for_spec_adds:
  assumes "insert_edges_for_spec lib entry (make_node_id lib entry) cp (dict_get entry ''lang_code'')
             spec st = Inr st'"
    and "spec \<in> set RELATION_SPECS"
  shows "adds_edges (cites lib (entries (fst st)) entry) st st'"
proof -
  obtain field rt up fb where sp: "spec = (field, rt, up, fb)" by (cases spec)
  let ?src = "make_node_id lib entry"
  let ?el = "dict_get entry ''lang_code''"
  from assms(1) obtain rels where it: "iter_relation_items lib entry field = Inr rels"
    and f: "for_each (insert_edge_for ?src cp ?el rt up fb) rels st = Inr st'"
    unfolding insert_edges_for_spec_def sp by (auto split: sum.splits)
  have refs: "references lib entry field = rels" by (simp add: references_def it)
  show ?thesis
  proof (rule for_each_adds_edges [OF f])
    fix rel t t'
    assume rel: "rel \<in> set rels" and e: "entries (fst t) = entries (fst st)"
      and b: "insert_edge_for ?src cp ?el rt up fb rel t = Inr t'"
    obtain d ce cd where t: "t = (d, ce, cd)" by (cases t)
    from insert_edge_for_step [OF b [unfolded t]]
    show "adds_edges (cites lib (entries (fst st)) entry) t t'"
    proof
      assume "t' = (d, ce, cd)"
      then show ?thesis using t by (simp add: adds_edges_refl)
    next
      assume "\<exists>r \<in> set (entries d).
             sql_text (dict_get rel ''word'') = Inr (Some (word r))
             \<and> sql_text (target_language fb ?el rel) = Inr (Some (lang_code r))
             \<and> t' = (insert_edge ?src (node_id r) rt d, ce, cd + 1)"
      then obtain r where r: "r \<in> set (entries d)"
        and w: "sql_text (dict_get rel ''word'') = Inr (Some (word r))"
        and l: "sql_text (target_language fb ?el rel) = Inr (Some (lang_code r))"
        and t': "t' = (insert_edge ?src (node_id r) rt d, ce, cd + 1)"
        by blast
      have rows: "entries d = entries (fst st)" using e t by simp
      have "cites lib (entries (fst st)) entry
              \<lparr>src_id = ?src, dst_id = node_id r, relation_type = rt, raw_payload = None\<rparr>"
        unfolding cites_def
      proof (intro conjI bexI [of _ spec] bexI [of _ rel] bexI [of _ r])
        show "src_id \<lparr>src_id = ?src, dst_id = node_id r, relation_type = rt, raw_payload = None\<rparr>
            = ?src" by simp
        show "relation_type \<lparr>src_id = ?src, dst_id = node_id r, relation_type = rt,
            raw_payload = None\<rparr> = fst (snd spec)" by (simp add: sp)
        show "node_id r = dst_id \<lparr>src_id = ?src, dst_id = node_id r, relation_type = rt,
            raw_payload = None\<rparr>" by simp
        show "sql_text (dict_get rel ''word'') = Inr (Some (word r))" by (rule w)
        show "sql_text (target_language (snd (snd (snd spec))) ?el rel) = Inr (Some (lang_code r))"
          using l by (simp add: sp)
        show "r \<in> set (entries (fst st))" using r rows by simp
        show "rel \<in> set (references lib entry (fst spec))" using rel refs by (simp add: sp)
        show "spec \<in> set RELATION_SPECS" by (rule assms(2))
      qed
      then show ?thesis unfolding t t' by (rule adds_edges_one)
    qed
  qed
qed

lemma insert_entry_edges_adds:
  assumes "insert_entry_edges lib entry st = Inr st'"
  shows "adds_edges (cites lib (entries (fst st)) entry) st st'"
proof -
  obtain d ce cd where st: "st = (d, ce, cd)" by (cases st)
  let ?body = "insert_edges_for_spec lib entry (make_node_id lib entry) (dict_get entry ''pos'')
                 (dict_get entry ''lang_code'')"
  from assms have f: "for_each ?body RELATION_SPECS (d, ce + 1, cd) = Inr st'"
    unfolding insert_entry_edges_def st Let_def by simp
  have "adds_edges (cites lib (entries (fst (d, ce + 1, cd))) entry) (d, ce + 1, cd) st'"
  proof (rule for_each_adds_edges [OF f])
    fix x t t'
    assume x: "x \<in> set RELATION_SPECS"
      and e: "entries (fst t) = entries (fst (d, ce + 1, cd))" and b: "?body x t = Inr t'"
    from insert_edges_for_spec_adds [OF b x]
    show "adds_edges (cites lib (entries (fst (d, ce + 1, cd))) entry) t t'"
      unfolding e .
  qed
  then show ?thesis unfolding st adds_edges_def by simp
qed

lemma corpus_entries_mem:
  assumes "l \<in> set lines" and "read_entry l = Inr (Some entry)"
  shows "entry \<in> set (corpus_entries lines)"
proof -
  have "(case read_entry l of Inr (Some entry) \<Rightarrow> Some entry | _ \<Rightarrow> None) = Some entry"
    using assms(2) by simp
  then show ?thesis
    unfolding corpus_entries_def List.map_filter_def using assms(1)
    by (force intro!: image_eqI [where x = l])
qed

lemma insert_edges_from_jsonl_adds:
  assumes "insert_edges_from_jsonl lib d lines = Inr (d', ce, cd)"
  shows "entries d' = entries d
       \<and> (\<exists>new. edges d' = edges d @ new
            \<and> (\<forall>e \<in> set new. \<exists>entry \<in> set (corpus_entries lines). cites lib (entries d) entry e))"
proof -
  from assms have f: "for_each (insert_edges_line lib) lines (d, 0, 0) = Inr (d', ce, cd)"
    by (simp add: insert_edges_from_jsonl_def)
  let ?Q = "\<lambda>e. \<exists>entry \<in> set (corpus_entries lines). cites lib (entries d) entry e"
  have "adds_edges ?Q (d, 0, 0) (d', ce, cd)"
  proof (rule for_each_adds_edges [OF f])
    fix l t t'
    assume l: "l \<in> set lines" and e: "entries (fst t) = entries (fst (d, 0::nat, 0::nat))"
      and b: "insert_edges_line lib l t = Inr t'"
    show "adds_edges ?Q t t'"
    proof (cases "read_entry l")
      case (Inl err)
      then show ?thesis using b by (simp add: insert_edges_line_def)
    next
      case (Inr oe)
      show ?thesis
      proof (cases oe)
        case None
        then have "t' = t" using b Inr by (simp add: insert_edges_line_def)
        then show ?thesis by (simp add: adds_edges_refl)
      next
        case (Some entry)
        then have "insert_entry_edges lib entry t = Inr t'"
          using b Inr by (simp add: insert_edges_line_def)
        from insert_entry_edges_adds [OF this]
        have a: "adds_edges (cites lib (entries d) entry) t t'"
          using e by simp
        have m: "entry \<in> set (corpus_entries lines)"
          using l Inr Some by (simp add: corpus_entries_mem)
        show ?thesis by (rule adds_edges_mono [OF a]) (use m in blast)
      qed
    qed
  qed
  then show ?thesis unfolding adds_edges_def by auto
qed

lemma cites_ends:
  assumes "cites lib rows entry e"
  shows "src_id e = make_node_id lib entry" and "dst_id e \<in> node_id ` set rows"
  using assms unfolding cites_def by (auto intro: rev_image_eqI)

lemma replace_ids:
  "node_id ` set (filter (\<lambda>x. node_id x \<noteq> node_id r) rs @ [r]) = insert (node_id r) (node_id ` set rs)"
  by auto

lemma insert_entries_line_ids:
  assumes "insert_entries_line lib l st = Inr t"
  shows "node_id ` set (entries (fst st)) \<subseteq> node_id ` set (entries (fst t))
       \<and> (\<forall>entry. read_entry l = Inr (Some entry)
             \<longrightarrow> make_node_id lib entry \<in> node_id ` set (entries (fst t)))"
proof (cases "read_entry l")
  case (Inl e)
  then show ?thesis using assms by (simp add: insert_entries_line_def)
next
  case (Inr oe)
  show ?thesis
  proof (cases oe)
    case None
    then show ?thesis using assms Inr by (simp add: insert_entries_line_def)
  next
    case (Some entry)
    obtain d n where st: "st = (d, n)" by (cases st)
    obtain d' n' where t: "t = (d', n')" by (cases t)
    have "insert_entry lib entry (d, n) = Inr (d', n')"
      using assms Inr Some st t by (simp add: insert_entries_line_def)
    then obtain r where r: "stored_row lib entry = Inr r"
      and e: "entries d' = filter (\<lambda>x. node_id x \<noteq> node_id r) (entries d) @ [r]"
      by (rule insert_entry_Inr)
    have id: "node_id r = make_node_id lib entry" using r by (rule stored_row_node_id)
    have "node_id ` set (entries d') = insert (make_node_id lib entry) (node_id ` set (entries d))"
      using replace_ids [of r "entries d"] unfolding e id by simp
    then show ?thesis using st t Inr Some by auto
  qed
qed

lemma corpus_entries_Cons:
  "set (corpus_entries (l # ls)) =
     (case read_entry l of Inr (Some entry) \<Rightarrow> {entry} | _ \<Rightarrow> {}) \<union> set (corpus_entries ls)"
  by (auto simp: corpus_entries_def List.map_filter_simps split: sum.splits option.splits)

text \<open>After phase 1 every entry of the corpus has a node under its identity.\<close>

lemma insert_entries_ids:
  assumes "for_each (insert_entries_line lib) lines st = Inr st'"
  shows "node_id ` set (entries (fst st)) \<union> make_node_id lib ` set (corpus_entries lines)
           \<subseteq> node_id ` set (entries (fst st'))"
  using assms
proof (induction lines arbitrary: st)
  case Nil
  then show ?case by (simp add: corpus_entries_def List.map_filter_simps)
next
  case (Cons l ls)
  from Cons.prems obtain t where t: "insert_entries_line lib l st = Inr t"
    and r: "for_each (insert_entries_line lib) ls t = Inr st'"
    by (auto split: sum.splits)
  from insert_entries_line_ids [OF t]
  have a: "node_id ` set (entries (fst st)) \<subseteq> node_id ` set (entries (fst t))"
    and b: "\<forall>entry. read_entry l = Inr (Some entry)
             \<longrightarrow> make_node_id lib entry \<in> node_id ` set (entries (fst t))"
    by auto
  from Cons.IH [OF r]
  have c: "node_id ` set (entries (fst t)) \<union> make_node_id lib ` set (corpus_entries ls)
           \<subseteq> node_id ` set (entries (fst st'))" .
  have "make_node_id lib ` (case read_entry l of Inr (Some entry) \<Rightarrow> {entry} | _ \<Rightarrow> {})
      \<subseteq> node_id ` set (entries (fst t))"
    using b by (auto split: sum.splits option.splits)
  then show ?case unfolding corpus_entries_Cons image_Un using a c by blast
qed

lemma insert_edges_line_typed:
  assumes "typed_line lib l"
  shows "\<exists>d' cd'. insert_edges_line lib l (d, ce, cd)
           = Inr (d', ce + length (corpus_entries [l]), cd')"
proof (cases "skipped l")
  case True
  then show ?thesis
    by (simp add: insert_edges_line_def read_entry_skipped corpus_entries_step
        corpus_entries_def)
next
  case False
  then obtain entry where l: "l = Loads (Inr (JDict entry))" and ty: "typed_references lib entry"
    using assms unfolding typed_line_def
    by (auto split: line.splits sum.splits json.splits)
  have r: "read_entry l = Inr (Some entry)" using False unfolding l read_entry_dict by simp
  show ?thesis
    unfolding insert_edges_line_def r corpus_entries_step
    by (simp add: insert_entry_edges_typed [OF ty] corpus_entries_def)
qed

lemma for_each_typed_lines:
  assumes "list_all (typed_line lib) lines"
  shows "\<exists>d' cd'. for_each (insert_edges_line lib) lines (d, ce, cd)
           = Inr (d', ce + length (corpus_entries lines), cd')"
  using assms
proof (induction lines arbitrary: d ce cd)
  case Nil
  show ?case by (simp add: corpus_entries_def)
next
  case (Cons l lines)
  from Cons.prems have l: "typed_line lib l" and ls: "list_all (typed_line lib) lines"
    by simp_all
  from insert_edges_line_typed [OF l, of d ce cd] obtain d1 c1 where
    s: "insert_edges_line lib l (d, ce, cd) = Inr (d1, ce + length (corpus_entries [l]), c1)"
    by blast
  from Cons.IH [OF ls, of d1 "ce + length (corpus_entries [l])" c1] obtain d' cd' where
    "for_each (insert_edges_line lib) lines (d1, ce + length (corpus_entries [l]), c1)
       = Inr (d', ce + length (corpus_entries [l]) + length (corpus_entries lines), cd')"
    by blast
  moreover have "length (corpus_entries [l]) + length (corpus_entries lines)
      = length (corpus_entries (l # lines))"
    by (simp add: corpus_entries_def List.map_filter_def)
  ultimately show ?case by (simp add: s add.assoc)
qed

text \<open>Phase 2 runs to its end on a corpus with typed references and counts its entries.\<close>

lemma insert_edges_total:
  assumes "list_all (typed_line lib) lines"
  shows "\<exists>d' cd. insert_edges_from_jsonl lib d lines
           = Inr (d', length (corpus_entries lines), cd)"
  using for_each_typed_lines [OF assms, of d 0 0] by (simp add: insert_edges_from_jsonl_def)

text \<open>
  C10. Whatever \<open>resolve_target_node\<close> returns is the \<open>node_id\<close> of a row of the node set
  whose \<open>lang_code\<close> and \<open>word\<close> are the ones asked for. Phase 2 leaves the node set as it
  is, and every edge it adds is an edge from an entry of the corpus: its \<open>src_id\<close> is the
  identity of that entry, and its \<open>dst_id\<close> is the \<open>node_id\<close> of a node of the node set
  whose word and language code are those of a reference of that same entry, in the field
  of the relation spec that gives the edge its kind. When phase 1 has run on the same
  corpus, both ends of every edge added are nodes of the node set. Phase 2 runs to its
  end on every corpus whose lines are skipped or hold entries with typed references,
  counting the entries.
\<close>

theorem edges_between_nodes:
  "(\<forall>lc w cp d i. fst (resolve_target_node lc w cp d) = Some i \<longrightarrow>
       (\<exists>r \<in> set (entries d). node_id r = i \<and> lc = Some (lang_code r) \<and> w = Some (word r)))
   \<and> (\<forall>d lines d' ce cd. insert_edges_from_jsonl lib d lines = Inr (d', ce, cd) \<longrightarrow>
         entries d' = entries d
         \<and> (\<exists>new. edges d' = edges d @ new
              \<and> (\<forall>e \<in> set new.
                    (\<exists>entry \<in> set (corpus_entries lines). cites lib (entries d) entry e)
                    \<and> dst_id e \<in> node_id ` set (entries d))))
   \<and> (\<forall>d0 lines d1 n d2 ce cd.
         insert_entries_from_jsonl lib d0 lines = Inr (d1, n) \<longrightarrow>
         insert_edges_from_jsonl lib d1 lines = Inr (d2, ce, cd) \<longrightarrow>
         (\<exists>new. edges d2 = edges d1 @ new
            \<and> (\<forall>e \<in> set new.
                  (\<exists>entry \<in> set (corpus_entries lines). cites lib (entries d2) entry e)
                  \<and> dst_id e \<in> node_id ` set (entries d2)
                  \<and> src_id e \<in> node_id ` set (entries d2))))
   \<and> (\<forall>d lines. list_all (typed_line lib) lines \<longrightarrow>
         (\<exists>d' cd. insert_edges_from_jsonl lib d lines
                    = Inr (d', length (corpus_entries lines), cd)))"
proof (intro conjI allI impI)
  fix lc w cp d i
  assume "fst (resolve_target_node lc w cp d) = Some i"
  then show "\<exists>r \<in> set (entries d). node_id r = i \<and> lc = Some (lang_code r) \<and> w = Some (word r)"
    by (rule resolve_target_node_Some)
next
  fix d lines d' ce cd
  assume run: "insert_edges_from_jsonl lib d lines = Inr (d', ce, cd)"
  from insert_edges_from_jsonl_adds [OF run] show "entries d' = entries d" by simp
  from insert_edges_from_jsonl_adds [OF run] obtain new where
    n: "edges d' = edges d @ new"
    and q: "\<forall>e \<in> set new. \<exists>entry \<in> set (corpus_entries lines). cites lib (entries d) entry e"
    by auto
  have "\<forall>e \<in> set new.
          (\<exists>entry \<in> set (corpus_entries lines). cites lib (entries d) entry e)
          \<and> dst_id e \<in> node_id ` set (entries d)"
    using q cites_ends(2) by blast
  with n show "\<exists>new. edges d' = edges d @ new
              \<and> (\<forall>e \<in> set new.
                    (\<exists>entry \<in> set (corpus_entries lines). cites lib (entries d) entry e)
                    \<and> dst_id e \<in> node_id ` set (entries d))"
    by blast
next
  fix d0 lines d1 n d2 ce cd
  assume p1: "insert_entries_from_jsonl lib d0 lines = Inr (d1, n)"
    and p2: "insert_edges_from_jsonl lib d1 lines = Inr (d2, ce, cd)"
  from p1 have "for_each (insert_entries_line lib) lines (d0, 0) = Inr (d1, n)"
    by (simp add: insert_entries_from_jsonl_def)
  from insert_entries_ids [OF this]
  have ids: "make_node_id lib ` set (corpus_entries lines) \<subseteq> node_id ` set (entries d1)" by simp
  from insert_edges_from_jsonl_adds [OF p2] obtain new where
    e: "entries d2 = entries d1" and n: "edges d2 = edges d1 @ new"
    and q: "\<forall>e \<in> set new. \<exists>entry \<in> set (corpus_entries lines). cites lib (entries d1) entry e"
    by auto
  have "\<forall>e \<in> set new.
          (\<exists>entry \<in> set (corpus_entries lines). cites lib (entries d2) entry e)
          \<and> dst_id e \<in> node_id ` set (entries d2)
          \<and> src_id e \<in> node_id ` set (entries d2)"
  proof
    fix x assume "x \<in> set new"
    with q obtain entry where en: "entry \<in> set (corpus_entries lines)"
      and c: "cites lib (entries d1) entry x" by blast
    have "src_id x \<in> node_id ` set (entries d1)"
      using cites_ends(1) [OF c] en ids by auto
    moreover have "dst_id x \<in> node_id ` set (entries d1)" using cites_ends(2) [OF c] .
    ultimately show "(\<exists>entry \<in> set (corpus_entries lines). cites lib (entries d2) entry x)
          \<and> dst_id x \<in> node_id ` set (entries d2)
          \<and> src_id x \<in> node_id ` set (entries d2)"
      unfolding e using en c by blast
  qed
  with n show "\<exists>new. edges d2 = edges d1 @ new
            \<and> (\<forall>e \<in> set new.
                  (\<exists>entry \<in> set (corpus_entries lines). cites lib (entries d2) entry e)
                  \<and> dst_id e \<in> node_id ` set (entries d2)
                  \<and> src_id e \<in> node_id ` set (entries d2))"
    by blast
next
  fix d lines
  assume "list_all (typed_line lib) lines"
  then show "\<exists>d' cd. insert_edges_from_jsonl lib d lines
                    = Inr (d', length (corpus_entries lines), cd)"
    by (rule insert_edges_total)
qed

lemma phase1_example:
  "insert_entries_from_jsonl lib \<lparr>entries = [], edges = []\<rparr>
     [Loads (Inr (JDict [(''lang_code'', JStr ''en''), (''word'', JStr ''foo''),
        (''pos'', JStr ''noun''), (''etymology_number'', JInt 0)])),
      Loads (Inr (JDict [(''lang_code'', JStr ''en''), (''word'', JStr ''bar''),
        (''pos'', JStr ''verb''), (''derived'', JList [JStr ''foo''])]))]
   = Inr (\<lparr>entries = [plain_row ''en:foo:noun:0'' ''en'' ''foo'' (Some ''noun'') (Some 0),
             (plain_row ''en:bar:verb:0'' ''en'' ''bar'' (Some ''verb'') None)
               \<lparr>derived := Some (json_dumps lib (JList [JStr ''foo'']))\<rparr>],
           edges = []\<rparr>, 2)"
  by (simp add: insert_entries_from_jsonl_def insert_entries_line_def
      insert_entry_def insert_or_replace_def entry_params_def Let_def norm_get_def
      normalize_entry_apply TARGET_KEYS_def JSON_FIELDS_def dict_get_def make_node_id_def
      py_or_def py_str_def int_str_def nat_digits.simps plain_row_def)

lemma phase2_example:
  "insert_edges_from_jsonl lib
     \<lparr>entries = [plain_row ''en:foo:noun:0'' ''en'' ''foo'' (Some ''noun'') (Some 0),
             (plain_row ''en:bar:verb:0'' ''en'' ''bar'' (Some ''verb'') None)
               \<lparr>derived := Some (json_dumps lib (JList [JStr ''foo'']))\<rparr>],
           edges = []\<rparr>
     [Loads (Inr (JDict [(''lang_code'', JStr ''en''), (''word'', JStr ''foo''),
        (''pos'', JStr ''noun''), (''etymology_number'', JInt 0)])),
      Loads (Inr (JDict [(''lang_code'', JStr ''en''), (''word'', JStr ''bar''),
        (''pos'', JStr ''verb''), (''derived'', JList [JStr ''foo''])]))]
   = Inr (\<lparr>entries = [plain_row ''en:foo:noun:0'' ''en'' ''foo'' (Some ''noun'') (Some 0),
             (plain_row ''en:bar:verb:0'' ''en'' ''bar'' (Some ''verb'') None)
               \<lparr>derived := Some (json_dumps lib (JList [JStr ''foo'']))\<rparr>],
           edges = [\<lparr>src_id = ''en:bar:verb:0'', dst_id = ''en:foo:noun:0'',
                      relation_type = ''derived'', raw_payload = None\<rparr>]\<rparr>, 2, 1)"
  by (simp add: insert_edges_from_jsonl_def insert_edges_line_def
      insert_entry_edges_def RELATION_SPECS_def insert_edges_for_spec_def
      iter_relation_items_def insert_edge_for_def resolve_target_node_def
      select_candidates_def pick_best.simps ety_sort_key_def sql_text_def pos_hint_def
      insert_edge_def Let_def dict_get_def make_node_id_def
      py_or_def py_str_def int_str_def nat_digits.simps plain_row_def)

text \<open>
  The end-to-end example of the specification: \<open>foo\<close> (noun) and \<open>bar\<close> (verb, derived
  term \<open>foo\<close>). Phase 1 stores two nodes, phase 2 adds the one edge from \<open>en:bar:verb:0\<close>
  to \<open>en:foo:noun:0\<close>; it is an edge from an entry of the corpus and both ends are
  nodes.
\<close>

theorem edges_between_nodes_witness:
  "\<forall>lib.
     insert_entries_from_jsonl lib \<lparr>entries = [], edges = []\<rparr>
       [Loads (Inr (JDict [(''lang_code'', JStr ''en''), (''word'', JStr ''foo''),
          (''pos'', JStr ''noun''), (''etymology_number'', JInt 0)])),
        Loads (Inr (JDict [(''lang_code'', JStr ''en''), (''word'', JStr ''bar''),
          (''pos'', JStr ''verb''), (''derived'', JList [JStr ''foo''])]))]
     = Inr (\<lparr>entries = [plain_row ''en:foo:noun:0'' ''en'' ''foo'' (Some ''noun'') (Some 0),
               (plain_row ''en:bar:verb:0'' ''en'' ''bar'' (Some ''verb'') None)
                 \<lparr>derived := Some (json_dumps lib (JList [JStr ''foo'']))\<rparr>],
             edges = []\<rparr>, 2)
   \<and> insert_edges_from_jsonl lib
       \<lparr>entries = [plain_row ''en:foo:noun:0'' ''en'' ''foo'' (Some ''noun'') (Some 0),
               (plain_row ''en:bar:verb:0'' ''en'' ''bar'' (Some ''verb'') None)
                 \<lparr>derived := Some (json_dumps lib (JList [JStr ''foo'']))\<rparr>],
             edges = []\<rparr>
       [Loads (Inr (JDict [(''lang_code'', JStr ''en''), (''word'', JStr ''foo''),
          (''pos'', JStr ''noun''), (''etymology_number'', JInt 0)])),
        Loads (Inr (JDict [(''lang_code'', JStr ''en''), (''word'', JStr ''bar''),
          (''pos'', JStr ''verb''), (''derived'', JList [JStr ''foo''])]))]
     = Inr (\<lparr>entries = [plain_row ''en:foo:noun:0'' ''en'' ''foo'' (Some ''noun'') (Some 0),
               (plain_row ''en:bar:verb:0'' ''en'' ''bar'' (Some ''verb'') None)
                 \<lparr>derived := Some (json_dumps lib (JList [JStr ''foo'']))\<rparr>],
             edges = [\<lparr>src_id = ''en:bar:verb:0'', dst_id = ''en:foo:noun:0'',
                        relation_type = ''derived'', raw_payload = None\<rparr>]\<rparr>, 2, 1)
   \<and> (\<exists>entry \<in> set (corpus_entries
         [Loads (Inr (JDict [(''lang_code'', JStr ''en''), (''word'', JStr ''foo''),
            (''pos'', JStr ''noun''), (''etymology_number'', JInt 0)])),
          Loads (Inr (JDict [(''lang_code'', JStr ''en''), (''word'', JStr ''bar''),
            (''pos'', JStr ''verb''), (''derived'', JList [JStr ''foo''])]))]).
        cites lib
          [plain_row ''en:foo:noun:0'' ''en'' ''foo'' (Some ''noun'') (Some 0),
               (plain_row ''en:bar:verb:0'' ''en'' ''bar'' (Some ''verb'') None)
                 \<lparr>derived := Some (json_dumps lib (JList [JStr ''foo'']))\<rparr>]
          entry
          \<lparr>src_id = ''en:bar:verb:0'', dst_id = ''en:foo:noun:0'',
                        relation_type = ''derived'', raw_payload = None\<rparr>)
   \<and> ''en:foo:noun:0'' \<in> node_id `
         set [plain_row ''en:foo:noun:0'' ''en'' ''foo'' (Some ''noun'') (Some 0),
               (plain_row ''en:bar:verb:0'' ''en'' ''bar'' (Some ''verb'') None)
                 \<lparr>derived := Some (json_dumps lib (JList [JStr ''foo'']))\<rparr>]
   \<and> ''en:bar:verb:0'' \<in> node_id `
         set [plain_row ''en:foo:noun:0'' ''en'' ''foo'' (Some ''noun'') (Some 0),
               (plain_row ''en:bar:verb:0'' ''en'' ''bar'' (Some ''verb'') None)
                 \<lparr>derived := Some (json_dumps lib (JList [JStr ''foo'']))\<rparr>]"
proof
  fix lib :: pylib
  let ?lines = "[Loads (Inr (JDict [(''lang_code'', JStr ''en''), (''word'', JStr ''foo''),
          (''pos'', JStr ''noun''), (''etymology_number'', JInt 0)])),
        Loads (Inr (JDict [(''lang_code'', JStr ''en''), (''word'', JStr ''bar''),
          (''pos'', JStr ''verb''), (''derived'', JList [JStr ''foo''])]))]"
  let ?rows = "[plain_row ''en:foo:noun:0'' ''en'' ''foo'' (Some ''noun'') (Some 0),
               (plain_row ''en:bar:verb:0'' ''en'' ''bar'' (Some ''verb'') None)
                 \<lparr>derived := Some (json_dumps lib (JList [JStr ''foo'']))\<rparr>]"
  let ?edge = "\<lparr>src_id = ''en:bar:verb:0'', dst_id = ''en:foo:noun:0'',
                        relation_type = ''derived'', raw_payload = None\<rparr>"
  have p1: "insert_entries_from_jsonl lib \<lparr>entries = [], edges = []\<rparr> ?lines
      = Inr (\<lparr>entries = ?rows, edges = []\<rparr>, 2)"
    by (rule phase1_example)
  have p2: "insert_edges_from_jsonl lib \<lparr>entries = ?rows, edges = []\<rparr> ?lines
      = Inr (\<lparr>entries = ?rows, edges = [?edge]\<rparr>, 2, 1)"
    by (rule phase2_example)
  from edges_between_nodes [of lib, THEN conjunct2, THEN conjunct2, THEN conjunct1] p1 p2
  have "\<exists>new. edges \<lparr>entries = ?rows, edges = [?edge]\<rparr>
               = edges \<lparr>entries = ?rows, edges = []\<rparr> @ new
            \<and> (\<forall>e \<in> set new.
                  (\<exists>entry \<in> set (corpus_entries ?lines).
                     cites lib (entries \<lparr>entries = ?rows, edges = [?edge]\<rparr>) entry e)
                  \<and> dst_id e \<in> node_id ` set (entries \<lparr>entries = ?rows, edges = [?edge]\<rparr>)
                  \<and> src_id e \<in> node_id ` set (entries \<lparr>entries = ?rows, edges = [?edge]\<rparr>))"
    by blast
  then have "(\<exists>entry \<in> set (corpus_entries ?lines). cites lib ?rows entry ?edge)
      \<and> dst_id ?edge \<in> node_id ` set ?rows \<and> src_id ?edge \<in> node_id ` set ?rows"
    by simp
  then have "\<exists>entry \<in> set (corpus_entries ?lines). cites lib ?rows entry ?edge"
    and "''en:foo:noun:0'' \<in> node_id ` set ?rows" and "''en:bar:verb:0'' \<in> node_id ` set ?rows"
    by simp_all
  with p1 p2 show "insert_entries_from_jsonl lib \<lparr>entries = [], edges = []\<rparr> ?lines
      = Inr (\<lparr>entries = ?rows, edges = []\<rparr>, 2)
    \<and> insert_edges_from_jsonl lib \<lparr>entries = ?rows, edges = []\<rparr> ?lines
      = Inr (\<lparr>entries = ?rows, edges = [?edge]\<rparr>, 2, 1)
    \<and> (\<exists>entry \<in> set (corpus_entries ?lines). cites lib ?rows entry ?edge)
    \<and> ''en:foo:noun:0'' \<in> node_id ` set ?rows
    \<and> ''en:bar:verb:0'' \<in> node_id ` set ?rows"
    by blast
qed

section \<open>The relation specs at work\<close>

lemma insert_edge_for_no_language:
  assumes "\<not> truthy (dict_get rel ''lang_code'')"
  shows "insert_edge_for src cp el rt up False rel st = Inr st"
  using assms unfolding insert_edge_for_def by (cases st) (simp add: Let_def)

lemma for_each_unchanged:
  assumes "\<And>x. x \<in> set xs \<Longrightarrow> body x s = Inr s"
  shows "for_each body xs s = Inr s"
  using assms by (induction xs) simp_all

lemma descendants_no_language:
  assumes "iter_relation_items lib entry ''descendants'' = Inr rels"
    and "\<forall>rel \<in> set rels. \<not> truthy (dict_get rel ''lang_code'')"
  shows "insert_edges_for_spec lib entry src cp el (''descendants'', ''descendant'', False, False) st
           = Inr st"
proof -
  have "for_each (insert_edge_for src cp el ''descendant'' False False) rels st = Inr st"
    by (rule for_each_unchanged) (simp add: assms(2) insert_edge_for_no_language)
  then show ?thesis by (simp add: insert_edges_for_spec_def assms(1))
qed

lemma adds_edges_filter:
  assumes "adds_edges (\<lambda>e. \<not> P e) st st'"
  shows "filter P (edges (fst st')) = filter P (edges (fst st))"
proof -
  from assms obtain new where "edges (fst st') = edges (fst st) @ new" "\<forall>e \<in> set new. \<not> P e"
    by (auto simp: adds_edges_def)
  then show ?thesis by (simp add: filter_empty_conv)
qed

lemma entry_without_descendant_language:
  assumes "iter_relation_items lib entry ''descendants'' = Inr rels"
    and "\<forall>rel \<in> set rels. \<not> truthy (dict_get rel ''lang_code'')"
    and "insert_entry_edges lib entry st = Inr st'"
  shows "adds_edges (\<lambda>e. \<not> relation_type e = ''descendant'') st st'"
proof -
  obtain d ce cd where st: "st = (d, ce, cd)" by (cases st)
  let ?body = "insert_edges_for_spec lib entry (make_node_id lib entry) (dict_get entry ''pos'')
                 (dict_get entry ''lang_code'')"
  from assms(3) have f: "for_each ?body RELATION_SPECS (d, ce + 1, cd) = Inr st'"
    unfolding insert_entry_edges_def st Let_def by simp
  have "adds_edges (\<lambda>e. \<not> relation_type e = ''descendant'') (d, ce + 1, cd) st'"
  proof (rule for_each_adds_edges [OF f])
    fix x t t'
    assume x: "x \<in> set RELATION_SPECS" and b: "?body x t = Inr t'"
    show "adds_edges (\<lambda>e. \<not> relation_type e = ''descendant'') t t'"
    proof (cases "x = (''descendants'', ''descendant'', False, False)")
      case True
      then have "t' = t" using b descendants_no_language [OF assms(1,2)] by simp
      then show ?thesis by (simp add: adds_edges_refl)
    next
      case False
      obtain field rt up fb where xe: "x = (field, rt, up, fb)" by (cases x)
      have rt: "rt \<noteq> ''descendant''" using x False unfolding xe RELATION_SPECS_def by auto
      obtain d1 c1 c2 where t: "t = (d1, c1, c2)" by (cases t)
      from b obtain rs where
        fe: "for_each (insert_edge_for (make_node_id lib entry) (dict_get entry ''pos'')
               (dict_get entry ''lang_code'') rt up fb) rs t = Inr t'"
        unfolding insert_edges_for_spec_def xe by (auto split: sum.splits)
      show ?thesis
      proof (rule for_each_adds_edges [OF fe])
        fix rel u u'
        assume s: "insert_edge_for (make_node_id lib entry) (dict_get entry ''pos'')
               (dict_get entry ''lang_code'') rt up fb rel u = Inr u'"
        obtain d2 c3 c4 where u: "u = (d2, c3, c4)" by (cases u)
        have "u' = u \<or> (\<exists>i. u' = (insert_edge (make_node_id lib entry) i rt d2, c3, c4 + 1))"
          using insert_edge_for_step [OF s [unfolded u]] u by auto
        then show "adds_edges (\<lambda>e. \<not> relation_type e = ''descendant'') u u'"
        proof (elim disjE exE)
          assume "u' = u"
          then show ?thesis by (simp add: adds_edges_refl)
        next
          fix i
          assume u': "u' = (insert_edge (make_node_id lib entry) i rt d2, c3, c4 + 1)"
          show ?thesis unfolding u u' by (rule adds_edges_one) (simp add: rt)
        qed
      qed
    qed
  qed
  then show ?thesis unfolding st adds_edges_def by simp
qed

text \<open>Without part-of-speech matching the part of speech of the citing entry plays no role.\<close>

lemma insert_edge_for_no_pos:
  "insert_edge_for src cp el rt False fb rel st = insert_edge_for src cp' el rt False fb rel st"
  by (simp add: insert_edge_for_def)

text \<open>
  With inheritance, a reference without a language of its own is handled as the same
  reference carrying the language of the citing entry.
\<close>

lemma insert_edge_for_inherits:
  assumes "\<not> truthy (dict_get rel ''lang_code'')"
  shows "insert_edge_for src cp el rt up True rel st
       = insert_edge_for src cp el' rt up False ((''lang_code'', el) # rel) st"
proof -
  obtain d ce cd where st: "st = (d, ce, cd)" by (cases st)
  have w: "dict_get ((''lang_code'', el) # rel) ''word'' = dict_get rel ''word''"
    by (simp add: dict_get_def)
  have l: "target_language True el rel = el"
    using assms by (simp add: target_language_def)
  have r: "target_language False el' ((''lang_code'', el) # rel) = (if truthy el then el else JNull)"
    by (simp add: target_language_def dict_get_def)
  show ?thesis unfolding st insert_edge_for_eq w l r by (cases "truthy el") simp_all
qed

text \<open>
  With part-of-speech matching, among nodes of the language and the word the target is
  one with the part of speech of the citing entry, when there is one.
\<close>

lemma reference_target_pos_match:
  assumes "p \<noteq> []" and "w \<noteq> []" and "l \<noteq> []"
    and "reference_language fb el own = Some l"
    and "\<exists>r \<in> set rows. lang_code r = l \<and> word r = w \<and> pos r = Some p"
  shows "\<exists>r \<in> set rows. lang_code r = l \<and> word r = w \<and> pos r = Some p
           \<and> reference_target True fb (Some p) el w own rows
               = (if node_id r = [] then None else Some (node_id r))"
proof -
  let ?d = "\<lparr>entries = rows, edges = []\<rparr>"
  let ?sel = "sort_key pos (filter (\<lambda>r. lang_code r = l \<and> word r = w) rows)"
  let ?cands = "map (\<lambda>r. (node_id r, pos r, etymology_number r)) ?sel"
  have c: "fst (select_candidates l w ?d) = ?cands" by (simp add: select_candidates_def)
  from assms(5) obtain r0 where r0: "r0 \<in> set rows" "lang_code r0 = l" "word r0 = w" "pos r0 = Some p"
    by blast
  then have m0: "(node_id r0, pos r0, etymology_number r0) \<in> set (pos_matching p ?cands)"
    by (auto simp: pos_matching_def intro!: image_eqI [where x = r0])
  then have ne: "pos_matching p ?cands \<noteq> []" by auto
  then have cne: "?cands \<noteq> []" by (auto simp: pos_matching_def)
  let ?best = "hd (sort_key ety_sort_key (pos_matching p ?cands))"
  have sne: "sort_key ety_sort_key (pos_matching p ?cands) \<noteq> []"
    using ne by (simp add: sort_key_empty del: sort_key_simps)
  have pb: "pick_best ?cands (Some p) = Some (fst ?best)"
    unfolding pick_best_sorted [OF cne] pos_matches_Some [OF assms(1)]
    using sne by (cases "sort_key ety_sort_key (pos_matching p ?cands)") simp_all
  have "?best \<in> set (pos_matching p ?cands)"
    using hd_sort_key_min [OF ne, of ety_sort_key] by simp
  then obtain r where r: "r \<in> set rows" "lang_code r = l" "word r = w" "pos r = Some p"
      "?best = (node_id r, pos r, etymology_number r)"
    by (auto simp: pos_matching_def)
  have "pick_best ?cands (Some p) = Some (node_id r)" unfolding pb r(5) by simp
  then have "pick_best (fst (select_candidates l w ?d)) (Some p) = Some (node_id r)"
    unfolding c .
  moreover have "fst (select_candidates l w ?d) \<noteq> []" unfolding c by (rule cne)
  ultimately have "fst (resolve_target_node (Some l) (Some w) (Some p) ?d) = Some (node_id r)"
    using assms(2,3) by (simp add: resolve_target_node_eq)
  then have "reference_target True fb (Some p) el w own rows
       = (if node_id r = [] then None else Some (node_id r))"
    by (simp add: reference_target_def assms(4))
  with r(1-4) show ?thesis by blast
qed

text \<open>
  C4. The edge pass works through five relation specs, each a field, a relation kind, a
  part-of-speech flag and a language-inheritance flag: \<open>alt_of\<close>, \<open>form_of\<close> and
  \<open>redirects\<close> match the part of speech and inherit the language of the citing entry,
  \<open>derived\<close> does not match the part of speech and inherits the language, \<open>descendants\<close>
  does neither. What the flags make the pass do: for a reference of the types of the
  data model the pass adds the edge to the target the specification names, resolved in
  the reference's own language or, under inheritance, the citing entry's, with the
  citing entry's part of speech as the hint under part-of-speech matching and no hint
  otherwise; for an entry with such references it adds the edges of the five specs in
  order. With part-of-speech matching the target has the part of speech of the citing
  entry when a node of the language and the word has it; without it the part of speech
  of the citing entry plays no role. With inheritance a reference without a language is
  handled as the same reference carrying the citing entry's language. A descendant
  reference without a language of its own adds no edge and changes nothing; for an entry
  all of whose descendant references are without a language, the pass adds no
  \<open>descendant\<close> edge.
\<close>

theorem relation_specs_table:
  "RELATION_SPECS =
     [(''alt_of'', ''alt_of'', True, True), (''form_of'', ''form_of'', True, True),
      (''redirects'', ''redirect'', True, True), (''derived'', ''derived'', False, True),
      (''descendants'', ''descendant'', False, False)]
   \<and> (\<forall>src cp el rt up fb rel w own d ce cd.
         typed_reference rel = Some (w, own) \<longrightarrow>
         insert_edge_for src cp (opt_json el) rt up fb rel (d, ce, cd) =
           (case reference_target up fb (case cp of JStr p \<Rightarrow> Some p | _ \<Rightarrow> None) el w own
                   (entries d) of
              None \<Rightarrow> Inr (d, ce, cd)
            | Some dst \<Rightarrow>
                Inr (d\<lparr>edges := edges d @
                       [\<lparr>src_id = src, dst_id = dst, relation_type = rt, raw_payload = None\<rparr>]\<rparr>,
                     ce, cd + 1)))
   \<and> (\<forall>entry d ce cd.
         typed_references lib entry \<longrightarrow>
         insert_entry_edges lib entry (d, ce, cd) =
           Inr (d\<lparr>edges := edges d @ entry_edges lib entry (entries d)\<rparr>, ce + 1,
                cd + length (entry_edges lib entry (entries d))))
   \<and> (\<forall>fb p el w own l rows.
         p \<noteq> [] \<longrightarrow> w \<noteq> [] \<longrightarrow> l \<noteq> [] \<longrightarrow>
         reference_language fb el own = Some l \<longrightarrow>
         (\<exists>r \<in> set rows. lang_code r = l \<and> word r = w \<and> pos r = Some p) \<longrightarrow>
         (\<exists>r \<in> set rows. lang_code r = l \<and> word r = w \<and> pos r = Some p
            \<and> reference_target True fb (Some p) el w own rows
                = (if node_id r = [] then None else Some (node_id r))))
   \<and> (\<forall>src cp cp' el rt fb rel st.
         insert_edge_for src cp el rt False fb rel st
           = insert_edge_for src cp' el rt False fb rel st)
   \<and> (\<forall>src cp el el' rt up rel st.
         \<not> truthy (dict_get rel ''lang_code'') \<longrightarrow>
         insert_edge_for src cp el rt up True rel st
           = insert_edge_for src cp el' rt up False ((''lang_code'', el) # rel) st)
   \<and> (\<forall>src cp el rel st. \<not> truthy (dict_get rel ''lang_code'') \<longrightarrow>
         insert_edge_for src cp el ''descendant'' False False rel st = Inr st)
   \<and> (\<forall>entry rels st st'.
         iter_relation_items lib entry ''descendants'' = Inr rels \<longrightarrow>
         (\<forall>rel \<in> set rels. \<not> truthy (dict_get rel ''lang_code'')) \<longrightarrow>
         insert_entry_edges lib entry st = Inr st' \<longrightarrow>
         filter (\<lambda>e. relation_type e = ''descendant'') (edges (fst st'))
           = filter (\<lambda>e. relation_type e = ''descendant'') (edges (fst st)))"
proof (intro conjI allI impI)
  show "RELATION_SPECS =
     [(''alt_of'', ''alt_of'', True, True), (''form_of'', ''form_of'', True, True),
      (''redirects'', ''redirect'', True, True), (''derived'', ''derived'', False, True),
      (''descendants'', ''descendant'', False, False)]"
    by (simp add: RELATION_SPECS_def)
next
  fix src cp el rt up fb rel w own d ce cd
  assume "typed_reference rel = Some (w, own)"
  then show "insert_edge_for src cp (opt_json el) rt up fb rel (d, ce, cd) =
           (case reference_target up fb (case cp of JStr p \<Rightarrow> Some p | _ \<Rightarrow> None) el w own
                   (entries d) of
              None \<Rightarrow> Inr (d, ce, cd)
            | Some dst \<Rightarrow>
                Inr (d\<lparr>edges := edges d @
                       [\<lparr>src_id = src, dst_id = dst, relation_type = rt, raw_payload = None\<rparr>]\<rparr>,
                     ce, cd + 1))"
    by (rule insert_edge_for_typed)
next
  fix entry d ce cd
  assume "typed_references lib entry"
  then show "insert_entry_edges lib entry (d, ce, cd) =
           Inr (d\<lparr>edges := edges d @ entry_edges lib entry (entries d)\<rparr>, ce + 1,
                cd + length (entry_edges lib entry (entries d)))"
    by (rule insert_entry_edges_typed)
next
  fix fb p el w own l and rows :: "row list"
  assume "p \<noteq> []" "w \<noteq> []" "l \<noteq> []" "reference_language fb el own = Some l"
    "\<exists>r \<in> set rows. lang_code r = l \<and> word r = w \<and> pos r = Some p"
  then show "\<exists>r \<in> set rows. lang_code r = l \<and> word r = w \<and> pos r = Some p
            \<and> reference_target True fb (Some p) el w own rows
                = (if node_id r = [] then None else Some (node_id r))"
    by (rule reference_target_pos_match)
next
  fix src cp cp' el rt fb rel st
  show "insert_edge_for src cp el rt False fb rel st
           = insert_edge_for src cp' el rt False fb rel st"
    by (rule insert_edge_for_no_pos)
next
  fix src cp el el' rt up rel st
  assume "\<not> truthy (dict_get rel ''lang_code'')"
  then show "insert_edge_for src cp el rt up True rel st
           = insert_edge_for src cp el' rt up False ((''lang_code'', el) # rel) st"
    by (rule insert_edge_for_inherits)
next
  fix src cp el rel st
  assume "\<not> truthy (dict_get rel ''lang_code'')"
  then show "insert_edge_for src cp el ''descendant'' False False rel st = Inr st"
    by (rule insert_edge_for_no_language)
next
  fix entry rels st st'
  assume "iter_relation_items lib entry ''descendants'' = Inr rels"
    and "\<forall>rel \<in> set rels. \<not> truthy (dict_get rel ''lang_code'')"
    and "insert_entry_edges lib entry st = Inr st'"
  then have "adds_edges (\<lambda>e. \<not> relation_type e = ''descendant'') st st'"
    by (rule entry_without_descendant_language)
  then show "filter (\<lambda>e. relation_type e = ''descendant'') (edges (fst st'))
           = filter (\<lambda>e. relation_type e = ''descendant'') (edges (fst st))"
    by (rule adds_edges_filter)
qed

lemma flags_example_typed:
  "typed_references lib
     [(''lang_code'', JStr ''en''), (''word'', JStr ''bar''), (''pos'', JStr ''verb''),
      (''alt_of'', JList [JDict [(''word'', JStr ''foo'')]]),
      (''derived'', JList [JStr ''foo'']), (''descendants'', JList [JStr ''foo''])]"
  by (simp add: typed_references_def text_or_absent_def iter_relation_items_def
      typed_reference_def dict_get_def py_or_def py_str_def)

lemma flags_example_edges:
  "entry_edges lib
     [(''lang_code'', JStr ''en''), (''word'', JStr ''bar''), (''pos'', JStr ''verb''),
      (''alt_of'', JList [JDict [(''word'', JStr ''foo'')]]),
      (''derived'', JList [JStr ''foo'']), (''descendants'', JList [JStr ''foo''])]
     [plain_row ''en:foo:noun:0'' ''en'' ''foo'' (Some ''noun'') (Some 0),
      plain_row ''en:foo:verb:0'' ''en'' ''foo'' (Some ''verb'') (Some 0)]
   = [\<lparr>src_id = ''en:bar:verb:0'', dst_id = ''en:foo:verb:0'', relation_type = ''alt_of'',
        raw_payload = None\<rparr>,
      \<lparr>src_id = ''en:bar:verb:0'', dst_id = ''en:foo:noun:0'', relation_type = ''derived'',
        raw_payload = None\<rparr>]"
  by (simp add: entry_edges_def spec_edges_def List.map_filter_def references_def
      iter_relation_items_def typed_reference_def reference_target_def reference_language_def
      resolve_target_node_def select_candidates_def pick_best.simps ety_sort_key_def
      opt_text_def dict_get_def make_node_id_def py_or_def py_str_def int_str_def
      nat_digits.simps plain_row_def)

lemma flags_example_target:
  "reference_target True True (Some ''verb'') (Some ''en'') ''foo'' None
     [plain_row ''en:foo:noun:0'' ''en'' ''foo'' (Some ''noun'') (Some 0),
      plain_row ''en:foo:verb:0'' ''en'' ''foo'' (Some ''verb'') (Some 0)]
   = Some ''en:foo:verb:0''"
  by (simp add: reference_target_def reference_language_def resolve_target_node_def
      select_candidates_def pick_best.simps ety_sort_key_def plain_row_def)

text \<open>
  The nodes \<open>en:foo:noun:0\<close> and \<open>en:foo:verb:0\<close>, and the verb \<open>bar\<close> citing \<open>foo\<close>
  three times without a language: as what it is an alternate of, as a derived term and
  as a descendant. The alternate-of edge goes to the verb (language inherited, part of
  speech matched), the derived edge to the noun (language inherited, part of speech not
  matched: the first node with number 0), and there is no descendant edge.
\<close>

theorem relation_specs_table_witness:
  "\<forall>lib.
     insert_entry_edges lib
       [(''lang_code'', JStr ''en''), (''word'', JStr ''bar''), (''pos'', JStr ''verb''),
        (''alt_of'', JList [JDict [(''word'', JStr ''foo'')]]),
        (''derived'', JList [JStr ''foo'']), (''descendants'', JList [JStr ''foo''])]
       (\<lparr>entries = [plain_row ''en:foo:noun:0'' ''en'' ''foo'' (Some ''noun'') (Some 0),
                    plain_row ''en:foo:verb:0'' ''en'' ''foo'' (Some ''verb'') (Some 0)],
         edges = []\<rparr>, 0, 0)
     = Inr (\<lparr>entries = [plain_row ''en:foo:noun:0'' ''en'' ''foo'' (Some ''noun'') (Some 0),
                    plain_row ''en:foo:verb:0'' ''en'' ''foo'' (Some ''verb'') (Some 0)],
              edges = [\<lparr>src_id = ''en:bar:verb:0'', dst_id = ''en:foo:verb:0'',
                         relation_type = ''alt_of'', raw_payload = None\<rparr>,
                       \<lparr>src_id = ''en:bar:verb:0'', dst_id = ''en:foo:noun:0'',
                         relation_type = ''derived'', raw_payload = None\<rparr>]\<rparr>, 1, 2)
   \<and> insert_edge_for ''en:bar:verb:0'' (JStr ''verb'') (JStr ''en'') ''alt_of'' True True
       [(''word'', JStr ''foo''), (''lang_code'', JNull)]
       (\<lparr>entries = [plain_row ''en:foo:noun:0'' ''en'' ''foo'' (Some ''noun'') (Some 0),
                    plain_row ''en:foo:verb:0'' ''en'' ''foo'' (Some ''verb'') (Some 0)],
         edges = []\<rparr>, 1, 0)
     = Inr (\<lparr>entries = [plain_row ''en:foo:noun:0'' ''en'' ''foo'' (Some ''noun'') (Some 0),
                    plain_row ''en:foo:verb:0'' ''en'' ''foo'' (Some ''verb'') (Some 0)],
              edges = [\<lparr>src_id = ''en:bar:verb:0'', dst_id = ''en:foo:verb:0'',
                         relation_type = ''alt_of'', raw_payload = None\<rparr>]\<rparr>, 1, 1)
   \<and> insert_edge_for ''en:bar:verb:0'' (JStr ''verb'') (JStr ''en'') ''descendant'' False False
       [(''word'', JStr ''foo''), (''lang_code'', JNull)]
       (\<lparr>entries = [plain_row ''en:foo:noun:0'' ''en'' ''foo'' (Some ''noun'') (Some 0),
                    plain_row ''en:foo:verb:0'' ''en'' ''foo'' (Some ''verb'') (Some 0)],
         edges = []\<rparr>, 1, 0)
     = Inr (\<lparr>entries = [plain_row ''en:foo:noun:0'' ''en'' ''foo'' (Some ''noun'') (Some 0),
                    plain_row ''en:foo:verb:0'' ''en'' ''foo'' (Some ''verb'') (Some 0)],
              edges = []\<rparr>, 1, 0)"
proof
  fix lib :: pylib
  let ?e = "[(''lang_code'', JStr ''en''), (''word'', JStr ''bar''), (''pos'', JStr ''verb''),
        (''alt_of'', JList [JDict [(''word'', JStr ''foo'')]]),
        (''derived'', JList [JStr ''foo'']), (''descendants'', JList [JStr ''foo''])]"
  let ?rows = "[plain_row ''en:foo:noun:0'' ''en'' ''foo'' (Some ''noun'') (Some 0),
                plain_row ''en:foo:verb:0'' ''en'' ''foo'' (Some ''verb'') (Some 0)]"
  let ?rel = "[(''word'', JStr ''foo''), (''lang_code'', JNull)]"
  let ?e1 = "\<lparr>src_id = ''en:bar:verb:0'', dst_id = ''en:foo:verb:0'',
               relation_type = ''alt_of'', raw_payload = None\<rparr>"
  let ?e2 = "\<lparr>src_id = ''en:bar:verb:0'', dst_id = ''en:foo:noun:0'',
               relation_type = ''derived'', raw_payload = None\<rparr>"
  let ?d = "\<lparr>entries = ?rows, edges = []\<rparr>"
  note t = relation_specs_table [of lib]
  note reference = t [THEN conjunct2, THEN conjunct1, rule_format]
  note whole = t [THEN conjunct2, THEN conjunct2, THEN conjunct1, rule_format]
  note dropped = t [THEN conjunct2, THEN conjunct2, THEN conjunct2, THEN conjunct2,
      THEN conjunct2, THEN conjunct2, THEN conjunct1, rule_format]
  have ty: "typed_references lib ?e" by (rule flags_example_typed)
  have ed: "entry_edges lib ?e (entries ?d) = [?e1, ?e2]"
    using flags_example_edges [of lib] by simp
  have "insert_entry_edges lib ?e (?d, 0, 0) =
      Inr (?d\<lparr>edges := edges ?d @ entry_edges lib ?e (entries ?d)\<rparr>, 0 + 1,
           0 + length (entry_edges lib ?e (entries ?d)))"
    by (rule whole [OF ty])
  then have a: "insert_entry_edges lib ?e (?d, 0, 0)
      = Inr (\<lparr>entries = ?rows, edges = [?e1, ?e2]\<rparr>, 1, 2)"
    unfolding ed by simp
  have tr: "typed_reference ?rel = Some (''foo'', None)"
    by (simp add: typed_reference_def dict_get_def)
  have tg: "reference_target True True (case JStr ''verb'' of JStr p \<Rightarrow> Some p | _ \<Rightarrow> None)
              (Some ''en'') ''foo'' None (entries ?d) = Some ''en:foo:verb:0''"
    using flags_example_target by simp
  have "insert_edge_for ''en:bar:verb:0'' (JStr ''verb'') (opt_json (Some ''en''))
        ''alt_of'' True True ?rel (?d, 1, 0) =
      (case reference_target True True (case JStr ''verb'' of JStr p \<Rightarrow> Some p | _ \<Rightarrow> None)
              (Some ''en'') ''foo'' None (entries ?d) of
         None \<Rightarrow> Inr (?d, 1, 0)
       | Some dst \<Rightarrow>
           Inr (?d\<lparr>edges := edges ?d @
                  [\<lparr>src_id = ''en:bar:verb:0'', dst_id = dst, relation_type = ''alt_of'',
                    raw_payload = None\<rparr>]\<rparr>, 1, 0 + 1))"
    by (rule reference [OF tr])
  then have b: "insert_edge_for ''en:bar:verb:0'' (JStr ''verb'') (JStr ''en'') ''alt_of'' True True
       ?rel (?d, 1, 0) = Inr (\<lparr>entries = ?rows, edges = [?e1]\<rparr>, 1, 1)"
    unfolding tg by (simp add: opt_json_def)
  have nl: "\<not> truthy (dict_get ?rel ''lang_code'')" by (simp add: dict_get_def)
  have c: "insert_edge_for ''en:bar:verb:0'' (JStr ''verb'') (JStr ''en'') ''descendant''
       False False ?rel (?d, 1, 0) = Inr (?d, 1, 0)"
    by (rule dropped [OF nl])
  from a b c
  show "insert_entry_edges lib ?e (?d, 0, 0) = Inr (\<lparr>entries = ?rows, edges = [?e1, ?e2]\<rparr>, 1, 2)
   \<and> insert_edge_for ''en:bar:verb:0'' (JStr ''verb'') (JStr ''en'') ''alt_of'' True True
       ?rel (?d, 1, 0) = Inr (\<lparr>entries = ?rows, edges = [?e1]\<rparr>, 1, 1)
   \<and> insert_edge_for ''en:bar:verb:0'' (JStr ''verb'') (JStr ''en'') ''descendant'' False False
       ?rel (?d, 1, 0) = Inr (?d, 1, 0)"
    by blast
qed

end
